theory Spec2Isabelle
  imports Main "HOL-Library.Word"
begin

unbundle bit_operations_syntax

section \<open>Bytes, ctypes buffers and the file cursor\<close>

text \<open>
  The codec of \<^verbatim>\<open>bz2msh.py\<close> reads a binary file through \<^verbatim>\<open>f.readinto(obj)\<close>, where
  \<^verbatim>\<open>obj\<close> is a ctypes object, and through \<^verbatim>\<open>f.read(n)\<close>. A ctypes object is a buffer of
  bytes; \<^verbatim>\<open>readinto\<close> overwrites its first bytes with as many bytes as the file still has
  and leaves the others as they were. Integers are little-endian, as the format says.
\<close>

type_synonym byte = "8 word"

fun le_nat :: "byte list \<Rightarrow> nat" where
  "le_nat [] = 0"
| "le_nat (b # bs) = unat b + 256 * le_nat bs"

fun nat_le :: "nat \<Rightarrow> nat \<Rightarrow> byte list" where
  "nat_le 0 n = []"
| "nat_le (Suc k) n = of_nat (n mod 256) # nat_le k (n div 256)"

definition word_bytes :: "'a::len word \<Rightarrow> byte list" where
  "word_bytes w = nat_le (LENGTH('a) div 8) (unat w)"

definition bytes_word :: "byte list \<Rightarrow> 'a::len word" where
  "bytes_word bs = of_nat (le_nat bs)"

definition MSH_END_OF_OPTIONALS :: "32 word" where "MSH_END_OF_OPTIONALS = 0x9709513F"
definition MSH_MATERIAL :: "32 word" where "MSH_MATERIAL = 0x9709513E"
definition MSH_TEXTURE :: "32 word" where "MSH_TEXTURE = 0x7951FC0B"
definition MSH_CHILD :: "32 word" where "MSH_CHILD = 0xF74C51EE"
definition MSH_SIBLING :: "32 word" where "MSH_SIBLING = 0xB8990880"
definition MSH_END :: "32 word" where "MSH_END = 0xA93EB864"
definition MSH_EOF :: "32 word" where "MSH_EOF = 0xE3BB47F1"

text \<open>
  The exceptions of the module, and the two exceptions of the Python runtime that the
  decoder's own statements can raise: a seek to a negative offset and a list index out of
  range.
\<close>

datatype error = ZeroLengthName | UnknownBlock "32 word" | InvalidFormat | OSError | IndexError

record File =
  data :: "byte list"
  pos :: nat

definition tell :: "File \<Rightarrow> int" where
  "tell f = int (pos f)"

definition seek :: "int \<Rightarrow> File \<Rightarrow> error + File" where
  "seek p f = (if p < 0 then Inl OSError else Inr (f\<lparr>pos := nat p\<rparr>))"

definition read :: "nat \<Rightarrow> File \<Rightarrow> byte list \<times> File" where
  "read n f = (let got = take n (drop (pos f) (data f))
               in (got, f\<lparr>pos := pos f + length got\<rparr>))"

definition readinto :: "byte list \<Rightarrow> File \<Rightarrow> byte list \<times> File" where
  "readinto buf f = (let got = take (length buf) (drop (pos f) (data f))
                     in (got @ drop (length got) buf, f\<lparr>pos := pos f + length got\<rparr>))"

text \<open>\<^verbatim>\<open>f.readinto(x)\<close> for a ctypes integer or float \<^verbatim>\<open>x\<close> holding the word \<open>w\<close>.\<close>

definition readinto_word :: "'a::len word \<Rightarrow> File \<Rightarrow> 'a word \<times> File" where
  "readinto_word w f = (let (buf, f') = readinto (word_bytes w) f in (bytes_word buf, f'))"

text \<open>
  A ctypes \<^verbatim>\<open>Structure\<close> of floats and integers is kept as its buffer; a new one is all
  zero. The sizes are those of the declared fields (none of these has padding).
\<close>

type_synonym cstruct = "byte list"

definition sizeof_UVPair :: nat where "sizeof_UVPair = 8"
definition sizeof_Vector :: nat where "sizeof_Vector = 12"
definition sizeof_Vertex :: nat where "sizeof_Vertex = 32"
definition sizeof_ColorValue :: nat where "sizeof_ColorValue = 16"
definition sizeof_Color :: nat where "sizeof_Color = 4"
definition sizeof_Matrix :: nat where "sizeof_Matrix = 64"
definition sizeof_AnimKey :: nat where "sizeof_AnimKey = 36"
definition sizeof_BlockHeader :: nat where "sizeof_BlockHeader = 44"
definition sizeof_BlockInfo :: nat where "sizeof_BlockInfo = 8"
definition sizeof_Sphere :: nat where "sizeof_Sphere = 80"
definition sizeof_MSH_Header :: nat where "sizeof_MSH_Header = 28"
definition sizeof_FaceObj :: nat where "sizeof_FaceObj = 20"
definition sizeof_Plane :: nat where "sizeof_Plane = 16"
definition sizeof_c_uint16 :: nat where "sizeof_c_uint16 = 2"
definition sizeof_c_uint32 :: nat where "sizeof_c_uint32 = 4"

definition readinto_struct :: "nat \<Rightarrow> File \<Rightarrow> cstruct \<times> File" where
  "readinto_struct sz f = readinto (replicate sz 0) f"

text \<open>
  A ctypes array \<^verbatim>\<open>(T * n)()\<close> is a list of \<open>n\<close> elements, each the buffer of one \<^verbatim>\<open>T\<close>;
  \<^verbatim>\<open>f.readinto\<close> fills the whole array at once.
\<close>

type_synonym carray = "cstruct list"

fun chunks :: "nat \<Rightarrow> nat \<Rightarrow> byte list \<Rightarrow> byte list list" where
  "chunks sz 0 bs = []"
| "chunks sz (Suc n) bs = take sz bs # chunks sz n (drop sz bs)"

definition read_array :: "nat \<Rightarrow> nat \<Rightarrow> File \<Rightarrow> carray \<times> File" where
  "read_array sz n f = (let (buf, f') = readinto (replicate (n * sz) 0) f
                        in (chunks sz n buf, f'))"

subsection \<open>Names\<close>

text \<open>
  Every name is read by the same three statements:
  \<^verbatim>\<open>f.readinto(name_length); self.name = f.read(name_length.value)[0:-1].decode("ascii", "ignore")\<close>.
  The slice drops the last byte read, whatever it is; the decoder drops every byte that is
  not ASCII.
\<close>

definition decode_ascii_ignore :: "byte list \<Rightarrow> string" where
  "decode_ascii_ignore bs = map (\<lambda>b. char_of (unat b)) (filter (\<lambda>b. unat b < 128) bs)"

definition read_name :: "File \<Rightarrow> string \<times> File" where
  "read_name f =
     (let (name_length, f1) = readinto_word (0 :: 16 word) f;
          (raw, f2) = read (unat name_length) f1
      in (decode_ascii_ignore (butlast raw), f2))"

text \<open>
  \<^verbatim>\<open>name.encode()\<close> is UTF-8: a code point below 128 is one byte, one below 256 (the
  characters of type \<^typ>\<open>char\<close>) is two.
\<close>

definition encode :: "string \<Rightarrow> byte list" where
  "encode s = concat (map (\<lambda>c. let n = (of_char c :: nat) in
                 if n < 128 then [of_nat n] else [of_nat (192 + n div 64), of_nat (128 + n mod 64)]) s)"

definition write_name :: "string \<Rightarrow> byte list" where
  "write_name name =
     (let written_name = encode name @ [0]
      in word_bytes (of_nat (length written_name) :: 16 word) @ written_name)"

section \<open>Materials, textures and the optional blocks of a face group\<close>

record Material =
  mat_name :: string
  diffuse :: cstruct
  specular :: cstruct
  specular_power :: "32 word"
  emissive :: cstruct
  ambient :: cstruct

record Texture =
  tex_name :: string
  texture_type :: "32 word"
  mipmaps :: "32 word"

definition Material_read :: "File \<Rightarrow> Material \<times> File" where
  "Material_read f =
     (let (name, f) = read_name f;
          (diffuse, f) = readinto_struct sizeof_ColorValue f;
          (specular, f) = readinto_struct sizeof_ColorValue f;
          (specular_power, f) = readinto_word 0 f;
          (emissive, f) = readinto_struct sizeof_ColorValue f;
          (ambient, f) = readinto_struct sizeof_ColorValue f
      in (\<lparr>mat_name = name, diffuse = diffuse, specular = specular,
           specular_power = specular_power, emissive = emissive, ambient = ambient\<rparr>, f))"

definition Texture_read :: "File \<Rightarrow> Texture \<times> File" where
  "Texture_read f =
     (let (name, f) = read_name f;
          (texture_type, f) = readinto_word 0 f;
          (mipmaps, f) = readinto_word 0 f
      in (\<lparr>tex_name = name, texture_type = texture_type, mipmaps = mipmaps\<rparr>, f))"

text \<open>
  \<^verbatim>\<open>read_optional_blocks\<close>: one \<^verbatim>\<open>c_uint32\<close> is used for the three probes, so a probe that
  reads fewer than four bytes keeps the bytes of the probe before it. A probe that does not
  match seeks four bytes back from wherever the read stopped.
\<close>

definition read_optional_blocks ::
  "File \<Rightarrow> error + ((Material option \<times> Texture option \<times> bool) \<times> File)" where
  "read_optional_blocks f =
     (let (block_type_check, f) = readinto_word (0 :: 32 word) f
      in case (if block_type_check = MSH_MATERIAL
               then (let (m, f) = Material_read f in Inr (Some m, f))
               else (case seek (tell f - int sizeof_c_uint32) f of
                       Inl e \<Rightarrow> Inl e | Inr f \<Rightarrow> Inr (None, f))) of
           Inl e \<Rightarrow> Inl e
         | Inr (material, f) \<Rightarrow>
      (let (block_type_check, f) = readinto_word block_type_check f
       in case (if block_type_check = MSH_TEXTURE
                then (let (t, f) = Texture_read f in Inr (Some t, f))
                else (case seek (tell f - int sizeof_c_uint32) f of
                        Inl e \<Rightarrow> Inl e | Inr f \<Rightarrow> Inr (None, f))) of
            Inl e \<Rightarrow> Inl e
          | Inr (texture, f) \<Rightarrow>
      (let (block_type_check, f) = readinto_word block_type_check f
       in case (if block_type_check = MSH_END_OF_OPTIONALS
                then Inr (True, f)
                else (case seek (tell f - int sizeof_c_uint32) f of
                        Inl e \<Rightarrow> Inl e | Inr f \<Rightarrow> Inr (False, f))) of
            Inl e \<Rightarrow> Inl e
          | Inr (had_end_marker, f) \<Rightarrow> Inr ((material, texture, had_end_marker), f))))"

record BuckyDesc =
  flags :: "32 word"
  bd_vert_count :: "32 word"
  bd_index_count :: "32 word"
  bd_material :: "Material option"
  bd_texture :: "Texture option"
  bd_end_marker :: bool

record VertGroup =
  vg_state_index :: "32 word"
  vg_vert_count :: "32 word"
  vg_index_count :: "32 word"
  plane_index :: "32 word"
  vg_material :: "Material option"
  vg_texture :: "Texture option"
  vg_end_marker :: bool

definition BuckyDesc_read :: "File \<Rightarrow> error + (BuckyDesc \<times> File)" where
  "BuckyDesc_read f =
     (let (flags, f) = readinto_word 0 f;
          (index_count, f) = readinto_word 0 f;
          (vert_count, f) = readinto_word 0 f
      in case read_optional_blocks f of
           Inl e \<Rightarrow> Inl e
         | Inr ((material, texture, end_marker), f) \<Rightarrow>
             Inr (\<lparr>flags = flags, bd_vert_count = vert_count, bd_index_count = index_count,
                   bd_material = material, bd_texture = texture, bd_end_marker = end_marker\<rparr>, f))"

definition VertGroup_read :: "File \<Rightarrow> error + (VertGroup \<times> File)" where
  "VertGroup_read f =
     (let (state_index, f) = readinto_word 0 f;
          (vert_count, f) = readinto_word 0 f;
          (index_count, f) = readinto_word 0 f;
          (plane_index, f) = readinto_word 0 f
      in case read_optional_blocks f of
           Inl e \<Rightarrow> Inl e
         | Inr ((material, texture, end_marker), f) \<Rightarrow>
             Inr (\<lparr>vg_state_index = state_index, vg_vert_count = vert_count,
                   vg_index_count = index_count, plane_index = plane_index,
                   vg_material = material, vg_texture = texture, vg_end_marker = end_marker\<rparr>, f))"

text \<open>\<^verbatim>\<open>for i in range(n): xs += [X(f)]\<close>, for a reader \<^verbatim>\<open>X\<close> that may raise.\<close>

fun read_many :: "(File \<Rightarrow> error + ('a \<times> File)) \<Rightarrow> nat \<Rightarrow> File \<Rightarrow> error + ('a list \<times> File)" where
  "read_many rd 0 f = Inr ([], f)"
| "read_many rd (Suc n) f =
     (case rd f of
        Inl e \<Rightarrow> Inl e
      | Inr (x, f) \<Rightarrow>
          (case read_many rd n f of
             Inl e \<Rightarrow> Inl e
           | Inr (xs, f) \<Rightarrow> Inr (x # xs, f)))"

section \<open>Skin weights and animations\<close>

text \<open>
  A \<^verbatim>\<open>VertIndex\<close> is built from a \<^verbatim>\<open>c_float\<close> and a \<^verbatim>\<open>c_uint16\<close> read one after the other
  (six bytes); the container keeps the declared count as a Python integer beside the list.
\<close>

record VertIndex =
  weight :: "32 word"
  index :: "16 word"

record VertIndexContainer =
  count :: int
  array :: "VertIndex list"

fun read_vert_indices :: "nat \<Rightarrow> File \<Rightarrow> VertIndex list \<times> File" where
  "read_vert_indices 0 f = ([], f)"
| "read_vert_indices (Suc n) f =
     (let (weight, f) = readinto_word 0 f;
          (vertex_index, f) = readinto_word 0 f;
          (array, f) = read_vert_indices n f
      in (\<lparr>weight = weight, index = vertex_index\<rparr> # array, f))"

text \<open>The loop over the states; \<^verbatim>\<open>array_count\<close> is one object for all iterations.\<close>

fun read_vert_to_state :: "nat \<Rightarrow> 32 word \<Rightarrow> File \<Rightarrow> VertIndexContainer list \<times> File" where
  "read_vert_to_state 0 array_count f = ([], f)"
| "read_vert_to_state (Suc n) array_count f =
     (let (array_count, f) = readinto_word array_count f;
          (array, f) = read_vert_indices (unat array_count) f;
          (vert_to_state, f) = read_vert_to_state n array_count f
      in (\<lparr>count = int (unat array_count), array = array\<rparr> # vert_to_state, f))"

record Anim =
  anim_index :: "32 word"
  anim_max_frame :: "32 word"
  anim_states :: carray

record AnimList =
  al_name :: string
  anim_type :: "32 word"
  al_max_frame :: "32 word"
  end_frame :: "32 word"
  al_states :: carray
  animations :: "Anim list"

definition Anim_read :: "File \<Rightarrow> error + (Anim \<times> File)" where
  "Anim_read f =
     (let (index, f) = readinto_word 0 f;
          (max_frame, f) = readinto_word 0 f;
          (count, f) = readinto_word (0 :: 32 word) f;
          (states, f) = read_array sizeof_AnimKey (unat count) f
      in Inr (\<lparr>anim_index = index, anim_max_frame = max_frame, anim_states = states\<rparr>, f))"

definition AnimList_read :: "File \<Rightarrow> error + (AnimList \<times> File)" where
  "AnimList_read f =
     (let (name, f) = read_name f;
          (anim_type, f) = readinto_word 0 f;
          (max_frame, f) = readinto_word 0 f;
          (end_frame, f) = readinto_word 0 f;
          (count, f) = readinto_word (0 :: 32 word) f;
          (states, f) = read_array sizeof_AnimKey (unat count) f;
          (count, f) = readinto_word count f
      in case read_many Anim_read (unat count) f of
           Inl e \<Rightarrow> Inl e
         | Inr (anims, f) \<Rightarrow>
             Inr (\<lparr>al_name = name, anim_type = anim_type, al_max_frame = max_frame,
                   end_frame = end_frame, al_states = states, animations = anims\<rparr>, f))"

section \<open>Meshes\<close>

text \<open>
  The fields that \<^verbatim>\<open>Mesh.read\<close> fills. While a block is read, a mesh is an object that is
  changed after other objects already refer to it, so the reader works on a heap of
  \<open>MeshObj\<close>, where \<open>child\<close>, \<open>sibling\<close> and \<open>meshes\<close> hold addresses. The graph that
  the reader hands out, and that the writer walks, is the value \<open>Mesh\<close>.
\<close>

record MeshBody =
  name :: string
  state_index :: "32 word"
  is_single_geom :: "32 word"
  renderflags :: "32 word"
  matrix :: cstruct
  vert_colors :: carray
  planes :: carray
  vertex :: carray
  vert_groups :: "VertGroup list"
  indices :: carray

datatype Mesh =
  Mesh (body: MeshBody) (child: "Mesh option") (sibling: "Mesh option")
       (meshes: "Mesh list") (level: int)

record MeshObj =
  obj_body :: MeshBody
  obj_child :: "nat option"
  obj_sibling :: "nat option"
  obj_meshes :: "nat list"
  obj_level :: int

definition Mesh_read :: "int \<Rightarrow> File \<Rightarrow> error + (MeshObj \<times> File)" where
  "Mesh_read lvl f =
     (let (name, f) = read_name f
      in if int (length name) \<le> 0 then Inl ZeroLengthName
         else
           (let (state_index, f) = readinto_word 0 f;
                (is_single_geom, f) = readinto_word 0 f;
                (renderflags, f) = readinto_word 0 f;
                (matrix, f) = readinto_struct sizeof_Matrix f;
                (count, f) = readinto_word (0 :: 32 word) f;
                (vert_colors, f) = read_array sizeof_Color (unat count) f;
                (count, f) = readinto_word count f;
                (planes, f) = read_array sizeof_Plane (unat count) f;
                (count, f) = readinto_word count f;
                (vertex, f) = read_array sizeof_Vertex (unat count) f;
                (count, f) = readinto_word count f
            in case read_many VertGroup_read (unat count) f of
                 Inl e \<Rightarrow> Inl e
               | Inr (groups, f) \<Rightarrow>
                   (let (count, f) = readinto_word count f;
                        (indices, f) = read_array sizeof_c_uint16 (unat count) f
                    in Inr (\<lparr>obj_body = \<lparr>name = name, state_index = state_index,
                                is_single_geom = is_single_geom, renderflags = renderflags,
                                matrix = matrix, vert_colors = vert_colors, planes = planes,
                                vertex = vertex, vert_groups = groups, indices = indices\<rparr>,
                              obj_child = None, obj_sibling = None, obj_meshes = [],
                              obj_level = lvl\<rparr>, f))))"

subsection \<open>The mesh tree of a block\<close>

text \<open>
  The local state of the loop of \<^verbatim>\<open>Block.read\<close>: the file, the meshes built so far (a
  mesh's address is its position in \<open>heap\<close>), the list \<^verbatim>\<open>mesh_at\<close> of addresses, the two
  counters and the \<^verbatim>\<open>c_uint32\<close> that every marker is read into.
\<close>

record LoopState =
  infile :: File
  heap :: "MeshObj list"
  mesh_at :: "nat list"
  indentation_level :: int
  in_mesh :: int
  block_type :: "32 word"

text \<open>The position that \<^verbatim>\<open>xs[i]\<close> names: a negative index counts from the end.\<close>

definition py_index :: "'a list \<Rightarrow> int \<Rightarrow> error + nat" where
  "py_index xs i =
     (if i < 0
      then (if - i \<le> int (length xs) then Inr (nat (int (length xs) + i)) else Inl IndexError)
      else (if i < int (length xs) then Inr (nat i) else Inl IndexError))"

text \<open>\<^verbatim>\<open>while in_mesh < indentation_level: indentation_level -= 1\<close>\<close>

function unindent :: "int \<Rightarrow> int \<Rightarrow> int" where
  "unindent n lvl = (if n < lvl then unindent n (lvl - 1) else lvl)"
  by pat_completeness auto
termination
  by (relation "measure (\<lambda>(n, lvl). nat (lvl - n))") auto

definition loop_step :: "LoopState \<Rightarrow> error + LoopState" where
  "loop_step s =
     (let (bt, f) = readinto_word (block_type s) (infile s)
      in if bt = MSH_CHILD then
           (case Mesh_read (indentation_level s + 1) f of
              Inl e \<Rightarrow> Inl e
            | Inr (this_mesh, f) \<Rightarrow>
           (case py_index (mesh_at s) (indentation_level s) of
              Inl e \<Rightarrow> Inl e
            | Inr i \<Rightarrow>
           (let a = length (heap s);
                h = heap s @ [this_mesh];
                p = mesh_at s ! i;
                h = h[p := (h ! p)\<lparr>obj_child := Some a\<rparr>];
                h = h[p := (h ! p)\<lparr>obj_meshes := obj_meshes (h ! p) @ [a]\<rparr>];
                lvl = indentation_level s + 1;
                n = in_mesh s + 1
            in if int (length (mesh_at s)) < lvl + 1
               then Inr \<lparr>infile = f, heap = h, mesh_at = mesh_at s @ [a],
                         indentation_level = lvl, in_mesh = n, block_type = bt\<rparr>
               else (case py_index (mesh_at s) lvl of
                       Inl e \<Rightarrow> Inl e
                     | Inr j \<Rightarrow>
                         Inr \<lparr>infile = f, heap = h, mesh_at = (mesh_at s)[j := a],
                              indentation_level = lvl, in_mesh = n, block_type = bt\<rparr>))))
         else if bt = MSH_SIBLING then
           (case Mesh_read (indentation_level s) f of
              Inl e \<Rightarrow> Inl e
            | Inr (this_mesh, f) \<Rightarrow>
           (case py_index (mesh_at s) (indentation_level s) of
              Inl e \<Rightarrow> Inl e
            | Inr i \<Rightarrow>
           (case py_index (mesh_at s) (indentation_level s - 1) of
              Inl e \<Rightarrow> Inl e
            | Inr k \<Rightarrow>
           (let a = length (heap s);
                h = heap s @ [this_mesh];
                p = mesh_at s ! i;
                h = h[p := (h ! p)\<lparr>obj_sibling := Some a\<rparr>];
                q = mesh_at s ! k;
                h = h[q := (h ! q)\<lparr>obj_meshes := obj_meshes (h ! q) @ [a]\<rparr>]
            in Inr \<lparr>infile = f, heap = h, mesh_at = (mesh_at s)[i := a],
                     indentation_level = indentation_level s, in_mesh = in_mesh s + 1,
                     block_type = bt\<rparr>))))
         else if bt = MSH_END then
           Inr \<lparr>infile = f, heap = heap s, mesh_at = mesh_at s,
                indentation_level = unindent (in_mesh s - 1) (indentation_level s),
                in_mesh = in_mesh s - 1, block_type = bt\<rparr>
         else Inl (UnknownBlock bt))"

function mesh_loop :: "LoopState \<Rightarrow> error + LoopState" where
  "mesh_loop s =
     (if in_mesh s > 0
      then (case loop_step s of Inl e \<Rightarrow> Inl e | Inr s' \<Rightarrow> mesh_loop s')
      else Inr s)"
  by pat_completeness auto

text \<open>
  The graph below the mesh at address \<open>a\<close>, as a value. Every reference that the loop
  stores is to the mesh it has just built, so it leads to a higher address.
\<close>

function snapshot :: "MeshObj list \<Rightarrow> nat \<Rightarrow> Mesh" where
  "snapshot h a =
     Mesh (obj_body (h ! a))
       (case obj_child (h ! a) of
          None \<Rightarrow> None
        | Some c \<Rightarrow> if a < c \<and> c < length h then Some (snapshot h c) else None)
       (case obj_sibling (h ! a) of
          None \<Rightarrow> None
        | Some c \<Rightarrow> if a < c \<and> c < length h then Some (snapshot h c) else None)
       (map (snapshot h) (filter (\<lambda>c. a < c \<and> c < length h) (obj_meshes (h ! a))))
       (obj_level (h ! a))"
  by pat_completeness auto
termination
  by (relation "measure (\<lambda>(h, a). length h - a)") auto

text \<open>
  The last part of \<^verbatim>\<open>Block.read\<close>: the root mesh, the loop over the markers and the
  end-of-block marker, read into the \<^verbatim>\<open>c_uint32\<close> of the loop.
\<close>

definition Block_read_meshes :: "File \<Rightarrow> error + (Mesh \<times> File)" where
  "Block_read_meshes f =
     (case Mesh_read 0 f of
        Inl e \<Rightarrow> Inl e
      | Inr (root_mesh, f) \<Rightarrow>
     (case mesh_loop \<lparr>infile = f, heap = [root_mesh], mesh_at = [0], indentation_level = 0,
                      in_mesh = 1, block_type = 0\<rparr> of
        Inl e \<Rightarrow> Inl e
      | Inr s \<Rightarrow>
     (let (bt, f) = readinto_word (block_type s) (infile s)
      in if bt \<noteq> MSH_EOF then Inl InvalidFormat
         else Inr (snapshot (heap s) 0, f))))"

section \<open>Blocks and the file\<close>

record Block =
  block_info :: cstruct
  blk_name :: string
  sphere :: cstruct
  msh_header :: cstruct
  vertices :: carray
  vertex_normals :: carray
  uvs :: carray
  blk_vert_colors :: carray
  faces :: carray
  buckydescriptions :: "BuckyDesc list"
  vert_to_state :: "VertIndexContainer list"
  blk_vert_groups :: "VertGroup list"
  blk_indices :: carray
  blk_planes :: carray
  state_matrices :: carray
  states :: carray
  animation_list :: "AnimList list"
  root :: "Mesh option"

text \<open>
  \<^verbatim>\<open>Block.read\<close> up to the animation lists (\<^verbatim>\<open>self.root\<close> is still \<^verbatim>\<open>None\<close>), and the
  whole of it.
\<close>

definition Block_read_buffers :: "File \<Rightarrow> error + (Block \<times> File)" where
  "Block_read_buffers f =
     (let (block_info, f) = readinto_struct sizeof_BlockInfo f;
          (name, f) = read_name f;
          (sphere, f) = readinto_struct sizeof_Sphere f;
          (msh_header, f) = readinto_struct sizeof_MSH_Header f;
          (count, f) = readinto_word (0 :: 32 word) f;
          (vertices, f) = read_array sizeof_Vector (unat count) f;
          (count, f) = readinto_word count f;
          (vertex_normals, f) = read_array sizeof_Vector (unat count) f;
          (count, f) = readinto_word count f;
          (uvs, f) = read_array sizeof_UVPair (unat count) f;
          (count, f) = readinto_word count f;
          (vert_colors, f) = read_array sizeof_Color (unat count) f;
          (count, f) = readinto_word count f;
          (faces, f) = read_array sizeof_FaceObj (unat count) f;
          (count, f) = readinto_word count f
      in case read_many BuckyDesc_read (unat count) f of
           Inl e \<Rightarrow> Inl e
         | Inr (buckys, f) \<Rightarrow>
     (let (count, f) = readinto_word count f;
          (vts, f) = read_vert_to_state (unat count) 0 f;
          (count, f) = readinto_word count f
      in case read_many VertGroup_read (unat count) f of
           Inl e \<Rightarrow> Inl e
         | Inr (groups, f) \<Rightarrow>
     (let (count, f) = readinto_word count f;
          (indices, f) = read_array sizeof_c_uint16 (unat count) f;
          (count, f) = readinto_word count f;
          (planes, f) = read_array sizeof_Plane (unat count) f;
          (count, f) = readinto_word count f;
          (state_matrices, f) = read_array sizeof_Matrix (unat count) f;
          (count, f) = readinto_word count f;
          (states, f) = read_array sizeof_AnimKey (unat count) f;
          (count, f) = readinto_word count f
      in case read_many AnimList_read (unat count) f of
           Inl e \<Rightarrow> Inl e
         | Inr (anims, f) \<Rightarrow>
          Inr (\<lparr>block_info = block_info, blk_name = name, sphere = sphere,
                msh_header = msh_header, vertices = vertices,
                vertex_normals = vertex_normals, uvs = uvs, blk_vert_colors = vert_colors,
                faces = faces, buckydescriptions = buckys, vert_to_state = vts,
                blk_vert_groups = groups, blk_indices = indices, blk_planes = planes,
                state_matrices = state_matrices, states = states, animation_list = anims,
                root = None\<rparr>, f))))"

definition Block_read :: "File \<Rightarrow> error + (Block \<times> File)" where
  "Block_read f =
     (case Block_read_buffers f of
        Inl e \<Rightarrow> Inl e
      | Inr (b, f) \<Rightarrow>
     (case Block_read_meshes f of
        Inl e \<Rightarrow> Inl e
      | Inr (root_mesh, f) \<Rightarrow> Inr (b\<lparr>root := Some root_mesh\<rparr>, f)))"

record BlockHeader =
  fileType :: "byte list"
  verID :: "32 word"
  blockCount :: "32 word"
  notUsed :: "byte list"

record MSH =
  block_header :: BlockHeader
  blocks :: "Block list"

definition readinto_BlockHeader :: "File \<Rightarrow> BlockHeader \<times> File" where
  "readinto_BlockHeader f =
     (let (buf, f) = readinto_struct sizeof_BlockHeader f
      in (\<lparr>fileType = take 4 buf, verID = bytes_word (take 4 (drop 4 buf)),
           blockCount = bytes_word (take 4 (drop 8 buf)), notUsed = drop 12 buf\<rparr>, f))"

definition MSH_read :: "File \<Rightarrow> error + (MSH \<times> File)" where
  "MSH_read f =
     (let (header, f) = readinto_BlockHeader f
      in case read_many Block_read (unat (blockCount header)) f of
           Inl e \<Rightarrow> Inl e
         | Inr (bs, f) \<Rightarrow> Inr (\<lparr>block_header = header, blocks = bs\<rparr>, f))"

section \<open>The writer\<close>

text \<open>
  \<^verbatim>\<open>MSH.write\<close> and its local functions, as the bytes they append. \<^verbatim>\<open>c_uint32(n)\<close> and
  \<^verbatim>\<open>c_uint16(n)\<close> keep the low bits of a Python integer.
\<close>

definition DISABLE_END_OF_OPTIONALS :: bool where
  "DISABLE_END_OF_OPTIONALS = True"

text \<open>\<^verbatim>\<open>f.write(c_uint32(len(a))); f.write(a)\<close> for a ctypes array \<open>a\<close>.\<close>

definition write_array :: "carray \<Rightarrow> byte list" where
  "write_array a = word_bytes (of_nat (length a) :: 32 word) @ concat a"

definition write_optionals :: "Material option \<Rightarrow> Texture option \<Rightarrow> bool \<Rightarrow> byte list" where
  "write_optionals material texture end_marker =
     (case material of
        None \<Rightarrow> []
      | Some m \<Rightarrow> word_bytes MSH_MATERIAL @ write_name (mat_name m) @ diffuse m @ specular m
                  @ word_bytes (specular_power m) @ emissive m @ ambient m)
     @ (case texture of
          None \<Rightarrow> []
        | Some t \<Rightarrow> word_bytes MSH_TEXTURE @ write_name (tex_name t)
                    @ word_bytes (texture_type t) @ word_bytes (mipmaps t))
     @ (if end_marker \<and> \<not> DISABLE_END_OF_OPTIONALS then word_bytes MSH_END_OF_OPTIONALS else [])"

definition write_vert_group :: "VertGroup \<Rightarrow> byte list" where
  "write_vert_group g =
     word_bytes (vg_state_index g) @ word_bytes (vg_vert_count g) @ word_bytes (vg_index_count g)
     @ word_bytes (plane_index g)
     @ write_optionals (vg_material g) (vg_texture g) (vg_end_marker g)"

definition write_bucky :: "BuckyDesc \<Rightarrow> byte list" where
  "write_bucky b =
     word_bytes (flags b) @ word_bytes (bd_index_count b) @ word_bytes (bd_vert_count b)
     @ write_optionals (bd_material b) (bd_texture b) (bd_end_marker b)"

definition write_mesh_body :: "MeshBody \<Rightarrow> byte list" where
  "write_mesh_body b =
     write_name (name b) @ word_bytes (state_index b) @ word_bytes (is_single_geom b)
     @ word_bytes (renderflags b) @ matrix b
     @ write_array (vert_colors b) @ write_array (planes b) @ write_array (vertex b)
     @ word_bytes (of_nat (length (vert_groups b)) :: 32 word)
     @ concat (map write_vert_group (vert_groups b))
     @ write_array (indices b)"

fun write_mesh :: "Mesh \<Rightarrow> byte list" where
  "write_mesh (Mesh b c s ms l) =
     write_mesh_body b
     @ (case c of None \<Rightarrow> [] | Some m \<Rightarrow> word_bytes MSH_CHILD @ write_mesh m)
     @ word_bytes MSH_END
     @ (case s of None \<Rightarrow> [] | Some m \<Rightarrow> word_bytes MSH_SIBLING @ write_mesh m)"

text \<open>
  \<^verbatim>\<open>c_float(vts.weight)\<close>: the field is read as a Python float (a double) and stored as a
  single again. Widening and narrowing keep every bit pattern but that of a signalling
  NaN, whose quiet bit they set.
\<close>

definition is_signalling_nan :: "32 word \<Rightarrow> bool" where
  "is_signalling_nan w =
     (w AND 0x7F800000 = 0x7F800000 \<and> w AND 0x007FFFFF \<noteq> 0 \<and> w AND 0x00400000 = 0)"

definition c_float_of_field :: "32 word \<Rightarrow> 32 word" where
  "c_float_of_field w = (if is_signalling_nan w then w OR 0x00400000 else w)"

definition write_vert_index :: "VertIndex \<Rightarrow> byte list" where
  "write_vert_index vts = word_bytes (c_float_of_field (weight vts)) @ word_bytes (index vts)"

definition write_vts_container :: "VertIndexContainer \<Rightarrow> byte list" where
  "write_vts_container c =
     word_bytes (of_int (count c) :: 32 word) @ concat (map write_vert_index (array c))"

definition write_anim :: "Anim \<Rightarrow> byte list" where
  "write_anim a =
     word_bytes (anim_index a) @ word_bytes (anim_max_frame a) @ write_array (anim_states a)"

definition write_anim_list :: "AnimList \<Rightarrow> byte list" where
  "write_anim_list al =
     write_name (al_name al) @ word_bytes (anim_type al) @ word_bytes (al_max_frame al)
     @ word_bytes (end_frame al) @ write_array (al_states al)
     @ word_bytes (of_nat (length (animations al)) :: 32 word)
     @ concat (map write_anim (animations al))"

definition write_block :: "Block \<Rightarrow> byte list" where
  "write_block b =
     block_info b @ write_name (blk_name b) @ sphere b @ msh_header b
     @ write_array (vertices b) @ write_array (vertex_normals b) @ write_array (uvs b)
     @ write_array (blk_vert_colors b) @ write_array (faces b)
     @ word_bytes (of_nat (length (buckydescriptions b)) :: 32 word)
     @ concat (map write_bucky (buckydescriptions b))
     @ word_bytes (of_nat (length (vert_to_state b)) :: 32 word)
     @ concat (map write_vts_container (vert_to_state b))
     @ word_bytes (of_nat (length (blk_vert_groups b)) :: 32 word)
     @ concat (map write_vert_group (blk_vert_groups b))
     @ write_array (blk_indices b) @ write_array (blk_planes b)
     @ write_array (state_matrices b) @ write_array (states b)
     @ word_bytes (of_nat (length (animation_list b)) :: 32 word)
     @ concat (map write_anim_list (animation_list b))
     @ (case root b of None \<Rightarrow> [] | Some m \<Rightarrow> write_mesh m)
     @ word_bytes MSH_EOF"

definition write_BlockHeader :: "BlockHeader \<Rightarrow> byte list" where
  "write_BlockHeader h =
     fileType h @ word_bytes (verID h) @ word_bytes (blockCount h) @ notUsed h"

text \<open>
  \<^verbatim>\<open>MSH.write\<close> stores the number of blocks in the header object before it writes it, so it
  returns the changed graph beside the bytes.
\<close>

definition MSH_write :: "MSH \<Rightarrow> byte list \<times> MSH" where
  "MSH_write m =
     (let m = m\<lparr>block_header := (block_header m)\<lparr>blockCount := of_nat (length (blocks m))\<rparr>\<rparr>
      in (write_BlockHeader (block_header m) @ concat (map write_block (blocks m)), m))"

section \<open>Auxiliary notions for the proofs\<close>

text \<open>The bytes from the cursor on, and the cursor moved forward.\<close>

definition remaining :: "File \<Rightarrow> byte list" where
  "remaining f = drop (pos f) (data f)"

definition advance :: "nat \<Rightarrow> File \<Rightarrow> File" where
  "advance n f = f\<lparr>pos := pos f + n\<rparr>"

text \<open>
  \<open>steps f f'\<close>: the same bytes, and a cursor that is still inside them and either not
  behind where it was or within the last four bytes (where a rewound probe leaves it).
\<close>

definition steps :: "File \<Rightarrow> File \<Rightarrow> bool" where
  "steps f f' \<longleftrightarrow>
     data f' = data f \<and>
     (pos f \<le> length (data f) \<longrightarrow>
        pos f' \<le> length (data f) \<and> (pos f \<le> pos f' \<or> length (data f) \<le> pos f' + 4))"

text \<open>One probe of \<open>read_optional_blocks\<close>: the three probes there are instances of it.\<close>

definition slot ::
  "32 word \<Rightarrow> (File \<Rightarrow> 'a \<times> File) \<Rightarrow> 32 word \<Rightarrow> File \<Rightarrow> error + (('a option \<times> 32 word) \<times> File)" where
  "slot tag rd btc f =
     (let (btc, f) = readinto_word btc f
      in if btc = tag then (let (x, f) = rd f in Inr ((Some x, btc), f))
         else (case seek (tell f - int sizeof_c_uint32) f of
                 Inl e \<Rightarrow> Inl e | Inr f \<Rightarrow> Inr ((None, btc), f)))"

text \<open>What every turn of the loop over the markers makes smaller.\<close>

definition loop_measure :: "LoopState \<Rightarrow> nat" where
  "loop_measure s = 2 * (length (data (infile s)) - pos (infile s)) + nat (in_mesh s)"

subsection \<open>What the format can carry\<close>

text \<open>
  The writer puts Python values into fields of fixed width, and the reader finds the
  optional blocks by looking at the next four bytes. The predicates below say which values
  come back as they were written: names of ASCII characters whose length fits the 16-bit
  count, structures and array elements of their declared size, counts that fit 32 bits.
\<close>

definition ascii :: "string \<Rightarrow> bool" where
  "ascii s = list_all (\<lambda>c. (of_char c :: nat) < 128) s"

definition wf_name :: "string \<Rightarrow> bool" where
  "wf_name s \<longleftrightarrow> ascii s \<and> length s < 65535"

definition wf_array :: "nat \<Rightarrow> carray \<Rightarrow> bool" where
  "wf_array sz a \<longleftrightarrow> list_all (\<lambda>x. length x = sz) a \<and> length a < 2 ^ 32"

definition wf_Material :: "Material \<Rightarrow> bool" where
  "wf_Material m \<longleftrightarrow>
     wf_name (mat_name m) \<and> length (diffuse m) = sizeof_ColorValue
     \<and> length (specular m) = sizeof_ColorValue \<and> length (emissive m) = sizeof_ColorValue
     \<and> length (ambient m) = sizeof_ColorValue"

definition wf_Texture :: "Texture \<Rightarrow> bool" where
  "wf_Texture t \<longleftrightarrow> wf_name (tex_name t)"

text \<open>
  The end-of-optionals tag is never written, so the reader's probes after a face group
  look at whatever comes next. \<open>follow_ok m t w\<close>: the word \<open>w\<close> that follows a face
  group with material \<open>m\<close> and texture \<open>t\<close> is not taken for a tag by a probe that
  reaches it.
\<close>

definition follow_ok :: "Material option \<Rightarrow> Texture option \<Rightarrow> 32 word \<Rightarrow> bool" where
  "follow_ok m t nxt \<longleftrightarrow>
     (m = None \<and> t = None \<longrightarrow> nxt \<noteq> MSH_MATERIAL)
     \<and> (t = None \<longrightarrow> nxt \<noteq> MSH_TEXTURE)
     \<and> nxt \<noteq> MSH_END_OF_OPTIONALS"

text \<open>The bytes of a material and of a texture after their tag.\<close>

definition write_material :: "Material \<Rightarrow> byte list" where
  "write_material m = write_name (mat_name m) @ diffuse m @ specular m
                  @ word_bytes (specular_power m) @ emissive m @ ambient m"

definition write_texture :: "Texture \<Rightarrow> byte list" where
  "write_texture t = write_name (tex_name t) @ word_bytes (texture_type t) @ word_bytes (mipmaps t)"

definition wf_optionals :: "Material option \<Rightarrow> Texture option \<Rightarrow> bool" where
  "wf_optionals m t \<longleftrightarrow>
     (case m of None \<Rightarrow> True | Some x \<Rightarrow> wf_Material x)
     \<and> (case t of None \<Rightarrow> True | Some x \<Rightarrow> wf_Texture x)"

definition wf_VertGroup :: "VertGroup \<Rightarrow> bool" where
  "wf_VertGroup g = wf_optionals (vg_material g) (vg_texture g)"

definition wf_BuckyDesc :: "BuckyDesc \<Rightarrow> bool" where
  "wf_BuckyDesc b = wf_optionals (bd_material b) (bd_texture b)"

text \<open>
  In a list of face groups, the word after a group is the first field of the next group,
  and after the last group the word \<open>w\<close> that follows the list (a count).
\<close>

fun vert_groups_follow :: "VertGroup list \<Rightarrow> 32 word \<Rightarrow> bool" where
  "vert_groups_follow [] w = True"
| "vert_groups_follow (g # gs) w =
     (follow_ok (vg_material g) (vg_texture g)
        (case gs of [] \<Rightarrow> w | g' # _ \<Rightarrow> vg_state_index g')
      \<and> vert_groups_follow gs w)"

fun buckys_follow :: "BuckyDesc list \<Rightarrow> 32 word \<Rightarrow> bool" where
  "buckys_follow [] w = True"
| "buckys_follow (b # bs) w =
     (follow_ok (bd_material b) (bd_texture b)
        (case bs of [] \<Rightarrow> w | b' # _ \<Rightarrow> flags b')
      \<and> buckys_follow bs w)"

text \<open>What the reader returns for a written record: the same, with no end marker.\<close>

definition clear_vg :: "VertGroup \<Rightarrow> VertGroup" where
  "clear_vg g = g\<lparr>vg_end_marker := False\<rparr>"

definition clear_bd :: "BuckyDesc \<Rightarrow> BuckyDesc" where
  "clear_bd b = b\<lparr>bd_end_marker := False\<rparr>"


definition wf_Anim :: "Anim \<Rightarrow> bool" where
  "wf_Anim a = wf_array sizeof_AnimKey (anim_states a)"

definition wf_AnimList :: "AnimList \<Rightarrow> bool" where
  "wf_AnimList al \<longleftrightarrow>
     wf_name (al_name al) \<and> wf_array sizeof_AnimKey (al_states al)
     \<and> length (animations al) < 2 ^ 32 \<and> list_all wf_Anim (animations al)"

definition wf_MeshBody :: "MeshBody \<Rightarrow> bool" where
  "wf_MeshBody b \<longleftrightarrow>
     wf_name (name b) \<and> name b \<noteq> [] \<and> length (matrix b) = sizeof_Matrix
     \<and> wf_array sizeof_Color (vert_colors b) \<and> wf_array sizeof_Plane (planes b)
     \<and> wf_array sizeof_Vertex (vertex b)
     \<and> length (vert_groups b) < 2 ^ 32 \<and> list_all wf_VertGroup (vert_groups b)
     \<and> vert_groups_follow (vert_groups b) (of_nat (length (indices b)))
     \<and> wf_array sizeof_c_uint16 (indices b)"

definition clear_body :: "MeshBody \<Rightarrow> MeshBody" where
  "clear_body b = b\<lparr>vert_groups := map clear_vg (vert_groups b)\<rparr>"

subsection \<open>Mesh trees\<close>

text \<open>
  The number of meshes that \<open>write_mesh\<close> writes for a mesh (the mesh, what is below it
  and its later siblings), and the later siblings of a mesh in order, itself first.
\<close>

fun msize :: "Mesh \<Rightarrow> nat" where
  "msize (Mesh b c s ms l) =
     1 + (case c of None \<Rightarrow> 0 | Some m \<Rightarrow> msize m) + (case s of None \<Rightarrow> 0 | Some m \<Rightarrow> msize m)"

fun sibling_chain :: "Mesh \<Rightarrow> Mesh list" where
  "sibling_chain (Mesh b c s ms l) =
     Mesh b c s ms l # (case s of None \<Rightarrow> [] | Some m \<Rightarrow> sibling_chain m)"

text \<open>
  The reader builds the meshes in the order of the stream. \<open>flat a m\<close> is the part of its
  heap for what \<open>write_mesh m\<close> wrote, when the object of \<open>m\<close> has address \<open>a\<close>, and
  \<open>chain_addrs a m\<close> are the addresses of \<open>m\<close> and its later siblings.
\<close>

fun chain_addrs :: "nat \<Rightarrow> Mesh \<Rightarrow> nat list" where
  "chain_addrs a (Mesh b c s ms l) =
     a # (case s of None \<Rightarrow> []
          | Some m \<Rightarrow> chain_addrs (a + 1 + (case c of None \<Rightarrow> 0 | Some k \<Rightarrow> msize k)) m)"

fun flat :: "nat \<Rightarrow> Mesh \<Rightarrow> MeshObj list" where
  "flat a (Mesh b c s ms l) =
     \<lparr>obj_body = clear_body b,
      obj_child = (case c of None \<Rightarrow> None | Some m \<Rightarrow> Some (a + 1)),
      obj_sibling = (case s of None \<Rightarrow> None
                     | Some m \<Rightarrow> Some (a + 1 + (case c of None \<Rightarrow> 0 | Some k \<Rightarrow> msize k))),
      obj_meshes = (case c of None \<Rightarrow> [] | Some m \<Rightarrow> chain_addrs (a + 1) m),
      obj_level = l\<rparr>
     # (case c of None \<Rightarrow> [] | Some m \<Rightarrow> flat (a + 1) m)
     @ (case s of None \<Rightarrow> []
        | Some m \<Rightarrow> flat (a + 1 + (case c of None \<Rightarrow> 0 | Some k \<Rightarrow> msize k)) m)"

text \<open>
  \<open>wf_mesh d m\<close>: \<open>m\<close>, at depth \<open>d\<close>, what is below it and its later siblings have
  bodies that the format can carry, their \<open>level\<close> is their depth, and their \<open>meshes\<close>
  is the list of their children: the first child and its later siblings, in order.
\<close>

fun wf_mesh :: "int \<Rightarrow> Mesh \<Rightarrow> bool" where
  "wf_mesh d (Mesh b c s ms l) =
     (wf_MeshBody b \<and> l = d
      \<and> ms = (case c of None \<Rightarrow> [] | Some m \<Rightarrow> sibling_chain m)
      \<and> (case c of None \<Rightarrow> True | Some m \<Rightarrow> wf_mesh (d + 1) m)
      \<and> (case s of None \<Rightarrow> True | Some m \<Rightarrow> wf_mesh d m))"



definition fresh :: "MeshBody \<Rightarrow> int \<Rightarrow> MeshObj" where
  "fresh b lvl = \<lparr>obj_body = b, obj_child = None, obj_sibling = None, obj_meshes = [],
                  obj_level = lvl\<rparr>"

definition add_meshes :: "nat \<Rightarrow> nat list \<Rightarrow> MeshObj list \<Rightarrow> MeshObj list" where
  "add_meshes p xs h = h[p := (h ! p)\<lparr>obj_meshes := obj_meshes (h ! p) @ xs\<rparr>]"

definition loop_state :: "File \<Rightarrow> MeshObj list \<Rightarrow> nat list \<Rightarrow> nat \<Rightarrow> nat \<Rightarrow> 32 word \<Rightarrow> LoopState" where
  "loop_state f h m d n bt =
     \<lparr>infile = f, heap = h, mesh_at = m, indentation_level = int d, in_mesh = int n,
      block_type = bt\<rparr>"

subsection \<open>Sample values\<close>

text \<open>Small values of the data model, for instances of the theorems.\<close>

definition sample_body :: MeshBody where
  "sample_body = \<lparr>name = ''a'', state_index = 0, is_single_geom = 0, renderflags = 0,
                   matrix = replicate 64 0, vert_colors = [], planes = [], vertex = [],
                   vert_groups = [], indices = []\<rparr>"

definition sample_leaf :: Mesh where
  "sample_leaf = Mesh sample_body None None [] 0"






definition stale_msh :: MSH where
  "stale_msh = \<lparr>block_header = \<lparr>fileType = [66, 90, 77, 72], verID = 1, blockCount = 7,
                                  notUsed = replicate 32 0\<rparr>, blocks = []\<rparr>"

section \<open>Properties of the primitives\<close>

lemma length_nat_le [simp]: "length (nat_le k n) = k"
  by (induction k arbitrary: n) auto

lemma unat_byte_less: "unat (b :: byte) < 256"
  using unsigned_less [of b, where 'a = nat] by simp

lemma le_nat_nat_le: "le_nat (nat_le k n) = n mod 256 ^ k"
proof (induction k arbitrary: n)
  case 0 show ?case by simp
next
  case (Suc k)
  have "unat (of_nat (n mod 256) :: byte) = n mod 256" by (simp add: unat_of_nat)
  then show ?case using Suc by (simp add: mod_mult2_eq)
qed

lemma nat_le_le_nat: "nat_le (length bs) (le_nat bs) = bs"
proof (induction bs)
  case Nil show ?case by simp
next
  case (Cons b bs)
  then show ?case using unat_byte_less [of b] by simp
qed

lemma le_nat_bound: "le_nat bs < 256 ^ length bs"
proof (induction bs)
  case Nil show ?case by simp
next
  case (Cons b bs)
  then show ?case using unat_byte_less [of b] by simp
qed

lemma length_word_bytes32 [simp]: "length (word_bytes (w :: 32 word)) = 4"
  by (simp add: word_bytes_def)

lemma length_word_bytes16 [simp]: "length (word_bytes (w :: 16 word)) = 2"
  by (simp add: word_bytes_def)

lemma bytes_word_bytes32 [simp]: "bytes_word (word_bytes (w :: 32 word)) = w"
proof -
  have "unat w < 256 ^ 4" using unsigned_less [of w, where 'a = nat] by simp
  then show ?thesis by (simp add: word_bytes_def bytes_word_def le_nat_nat_le)
qed

lemma bytes_word_bytes16 [simp]: "bytes_word (word_bytes (w :: 16 word)) = w"
proof -
  have "unat w < 256 ^ 2" using unsigned_less [of w, where 'a = nat] by simp
  then show ?thesis by (simp add: word_bytes_def bytes_word_def le_nat_nat_le)
qed

lemma word_bytes_word32: "length bs = 4 \<Longrightarrow> word_bytes (bytes_word bs :: 32 word) = bs"
proof -
  assume l: "length bs = 4"
  have "le_nat bs < 2 ^ 32" using le_nat_bound [of bs] l by simp
  then have "unat (of_nat (le_nat bs) :: 32 word) = le_nat bs"
    by (simp add: unat_of_nat)
  then show ?thesis using nat_le_le_nat [of bs] l by (simp add: word_bytes_def bytes_word_def)
qed

lemma remaining_advance [simp]: "remaining (advance n f) = drop n (remaining f)"
  by (simp add: remaining_def advance_def add.commute)


lemma advance_0 [simp]: "advance 0 f = f"
  by (simp add: advance_def)

lemma pos_advance [simp]: "pos (advance n f) = pos f + n"
  by (simp add: advance_def)

lemma data_advance [simp]: "data (advance n f) = data f"
  by (simp add: advance_def)

lemma readinto_full:
  "remaining f = bs @ rest \<Longrightarrow> length buf = length bs \<Longrightarrow>
   readinto buf f = (bs, advance (length bs) f)"
  by (simp add: readinto_def remaining_def advance_def Let_def)

lemma readinto_word32_full:
  "remaining f = word_bytes (w :: 32 word) @ rest \<Longrightarrow>
   readinto_word (old :: 32 word) f = (w, advance 4 f)"
  using readinto_full [of f "word_bytes w" rest "word_bytes old"]
  by (simp add: readinto_word_def)

lemma readinto_word32_avail:
  "pos f + 4 \<le> length (data f) \<Longrightarrow>
   readinto_word (old :: 32 word) f = (bytes_word (take 4 (drop (pos f) (data f))), advance 4 f)"
  by (simp add: readinto_word_def readinto_def Let_def advance_def min_def)

lemma rewind4: "seek (tell (advance 4 f) - int sizeof_c_uint32) (advance 4 f) = Inr f"
  by (simp add: seek_def tell_def advance_def sizeof_c_uint32_def)

section \<open>The optional blocks\<close>

text \<open>
  C9. Where the four bytes at the cursor are none of the material tag, the texture tag and
  the end-of-optionals tag, \<open>read_optional_blocks\<close> returns no material, no texture and
  no end marker, and the file it leaves is the file it was given: each of the three
  probes is rewound in full.
\<close>

theorem no_optionals_cursor_unchanged:
  assumes "pos f + 4 \<le> length (data f)"
    and "bytes_word (take 4 (drop (pos f) (data f))) \<noteq> MSH_MATERIAL"
    and "bytes_word (take 4 (drop (pos f) (data f))) \<noteq> MSH_TEXTURE"
    and "bytes_word (take 4 (drop (pos f) (data f))) \<noteq> MSH_END_OF_OPTIONALS"
  shows "read_optional_blocks f = Inr ((None, None, False), f)"
  using assms by (simp add: read_optional_blocks_def readinto_word32_avail rewind4)

lemma word_of_bytes_1000: "(bytes_word [1, 0, 0, 0] :: 32 word) = 1"
  by (simp add: bytes_word_def)

theorem no_optionals_cursor_unchanged_witness:
  "read_optional_blocks \<lparr>data = [7, 7, 1, 0, 0, 0, 9], pos = 2\<rparr>
     = Inr ((None, None, False), \<lparr>data = [7, 7, 1, 0, 0, 0, 9], pos = 2\<rparr>)"
  using no_optionals_cursor_unchanged [of "\<lparr>data = [7, 7, 1, 0, 0, 0, 9], pos = 2\<rparr>"]
  by (simp add: word_of_bytes_1000 MSH_MATERIAL_def MSH_TEXTURE_def MSH_END_OF_OPTIONALS_def)

text \<open>
  C3, as the reader behaves. Where the four bytes at the cursor are neither the material
  tag nor the texture tag, \<open>read_optional_blocks\<close> raises nothing and returns no material
  and no texture; the two probes are rewound, so the cursor ends where it started when
  these bytes are not the end-of-optionals tag either, and four bytes further, past that
  tag, when they are. It never ends eight bytes further.
\<close>

theorem absent_optionals_probes_rewound:
  assumes "pos f + 4 \<le> length (data f)"
    and "bytes_word (take 4 (drop (pos f) (data f))) \<noteq> MSH_MATERIAL"
    and "bytes_word (take 4 (drop (pos f) (data f))) \<noteq> MSH_TEXTURE"
  shows "read_optional_blocks f =
           Inr ((None, None,
                 bytes_word (take 4 (drop (pos f) (data f))) = MSH_END_OF_OPTIONALS),
                advance (if bytes_word (take 4 (drop (pos f) (data f))) = MSH_END_OF_OPTIONALS
                         then 4 else 0) f)"
  using assms by (simp add: read_optional_blocks_def readinto_word32_avail rewind4)

theorem absent_optionals_probes_rewound_witness:
  "read_optional_blocks \<lparr>data = [1, 0, 0, 0, 2, 0, 0, 0], pos = 0\<rparr>
     = Inr ((None, None, False), \<lparr>data = [1, 0, 0, 0, 2, 0, 0, 0], pos = 0\<rparr>)"
  using absent_optionals_probes_rewound [of "\<lparr>data = [1, 0, 0, 0, 2, 0, 0, 0], pos = 0\<rparr>"]
  by (simp add: word_of_bytes_1000 MSH_MATERIAL_def MSH_TEXTURE_def MSH_END_OF_OPTIONALS_def)

text \<open>
  With eight bytes at the cursor, the first four neither tag, the cursor is left at offset
  0 and not at offset 8.
\<close>

theorem optionals_cursor_not_eight_counterexample:
  "pos (snd (projr (read_optional_blocks \<lparr>data = [1, 0, 0, 0, 2, 0, 0, 0], pos = 0\<rparr>))) \<noteq> 0 + 8
   \<and> bytes_word (take 4 (drop 0 [1, 0, 0, 0, 2, 0, 0, 0])) \<noteq> MSH_MATERIAL
   \<and> bytes_word (take 4 (drop 0 [1, 0, 0, 0, 2, 0, 0, 0])) \<noteq> MSH_TEXTURE"
  by code_simp

section \<open>The loop over the markers ends\<close>

lemma read_optional_blocks_slots:
  "read_optional_blocks f =
     (case slot MSH_MATERIAL Material_read 0 f of
        Inl e \<Rightarrow> Inl e
      | Inr ((material, btc), f) \<Rightarrow>
     (case slot MSH_TEXTURE Texture_read btc f of
        Inl e \<Rightarrow> Inl e
      | Inr ((texture, btc), f) \<Rightarrow>
     (case slot MSH_END_OF_OPTIONALS (\<lambda>f. ((), f)) btc f of
        Inl e \<Rightarrow> Inl e
      | Inr ((e, btc), f) \<Rightarrow> Inr ((material, texture, e \<noteq> None), f))))"
  unfolding read_optional_blocks_def slot_def
  by (simp add: split_def Let_def split: sum.split)

lemma steps_refl [simp]: "steps f f"
  by (simp add: steps_def)

lemma steps_trans: "steps f g \<Longrightarrow> steps g h \<Longrightarrow> steps f h"
  by (auto simp: steps_def)

lemma steps_readinto: "readinto buf f = (x, f') \<Longrightarrow> steps g f \<Longrightarrow> steps g f'"
  by (rule steps_trans, assumption) (auto simp: readinto_def Let_def steps_def)

lemma steps_read: "read n f = (x, f') \<Longrightarrow> steps g f \<Longrightarrow> steps g f'"
  by (rule steps_trans, assumption) (auto simp: read_def Let_def steps_def)

lemma steps_readinto_word: "readinto_word w f = (x, f') \<Longrightarrow> steps g f \<Longrightarrow> steps g f'"
  by (auto simp: readinto_word_def split: prod.splits intro: steps_readinto)

lemma steps_readinto_struct: "readinto_struct n f = (x, f') \<Longrightarrow> steps g f \<Longrightarrow> steps g f'"
  by (auto simp: readinto_struct_def intro: steps_readinto)

lemma steps_read_array: "read_array sz n f = (x, f') \<Longrightarrow> steps g f \<Longrightarrow> steps g f'"
  by (auto simp: read_array_def split: prod.splits intro: steps_readinto)

lemma steps_read_name: "read_name f = (x, f') \<Longrightarrow> steps g f \<Longrightarrow> steps g f'"
  by (auto simp: read_name_def split: prod.splits intro: steps_readinto_word steps_read)

lemma steps_probe:
  "readinto_word (w :: 32 word) f = (x, f1) \<Longrightarrow>
   seek (tell f1 - int sizeof_c_uint32) f1 = Inr f' \<Longrightarrow> steps g f \<Longrightarrow> steps g f'"
  by (rule steps_trans, assumption)
     (auto simp: readinto_word_def readinto_def Let_def seek_def tell_def sizeof_c_uint32_def
        steps_def split: if_splits)

lemmas steps_intros = steps_readinto_word steps_readinto_struct steps_read_array steps_read_name

lemma steps_Material_read: "Material_read f = (x, f') \<Longrightarrow> steps g f \<Longrightarrow> steps g f'"
  unfolding Material_read_def
  apply (clarsimp split: prod.splits)
  apply (drule (1) steps_intros)+
  apply assumption
  done

lemma steps_Texture_read: "Texture_read f = (x, f') \<Longrightarrow> steps g f \<Longrightarrow> steps g f'"
  unfolding Texture_read_def
  apply (clarsimp split: prod.splits)
  apply (drule (1) steps_intros)+
  apply assumption
  done

lemma steps_slot:
  assumes "slot tag rd btc f = Inr (x, f')" and "steps g f"
    and "\<And>f x f'. rd f = (x, f') \<Longrightarrow> steps g f \<Longrightarrow> steps g f'"
  shows "steps g f'"
proof -
  obtain b f1 where r: "readinto_word btc f = (b, f1)" by fastforce
  have s1: "steps g f1" using r assms(2) by (rule steps_readinto_word)
  show ?thesis
  proof (cases "b = tag")
    case True
    then show ?thesis using assms(1) r s1 assms(3)
      by (auto simp: slot_def split: prod.splits)
  next
    case False
    then show ?thesis using assms(1) r assms(2) steps_probe [OF r]
      by (auto simp: slot_def split: sum.splits)
  qed
qed

lemma steps_read_optional_blocks:
  assumes "read_optional_blocks f = Inr (x, f')" and "steps g f"
  shows "steps g f'"
proof -
  from assms(1) obtain m b1 f1 t b2 f2 e b3 where
    a: "slot MSH_MATERIAL Material_read 0 f = Inr ((m, b1), f1)" and
    b: "slot MSH_TEXTURE Texture_read b1 f1 = Inr ((t, b2), f2)" and
    c: "slot MSH_END_OF_OPTIONALS (\<lambda>f. ((), f)) b2 f2 = Inr ((e, b3), f')"
    unfolding read_optional_blocks_slots by (auto split: sum.splits prod.splits)
  have 1: "steps g f1"
    by (rule steps_slot [OF a assms(2)]) (rule steps_Material_read)
  have 2: "steps g f2"
    by (rule steps_slot [OF b 1]) (rule steps_Texture_read)
  show ?thesis
    by (rule steps_slot [OF c 2]) simp
qed

lemma steps_VertGroup_read: "VertGroup_read f = Inr (x, f') \<Longrightarrow> steps g f \<Longrightarrow> steps g f'"
  unfolding VertGroup_read_def
  apply (clarsimp split: prod.splits sum.splits)
  apply (drule (1) steps_intros)+
  apply (erule (1) steps_read_optional_blocks)
  done

lemma steps_BuckyDesc_read: "BuckyDesc_read f = Inr (x, f') \<Longrightarrow> steps g f \<Longrightarrow> steps g f'"
  unfolding BuckyDesc_read_def
  apply (clarsimp split: prod.splits sum.splits)
  apply (drule (1) steps_intros)+
  apply (erule (1) steps_read_optional_blocks)
  done

lemma steps_read_many:
  assumes "\<And>f x f' g. rd f = Inr (x, f') \<Longrightarrow> steps g f \<Longrightarrow> steps g f'"
  shows "read_many rd n f = Inr (xs, f') \<Longrightarrow> steps g f \<Longrightarrow> steps g f'"
proof (induction n arbitrary: f xs)
  case 0
  then show ?case by simp
next
  case (Suc n)
  from Suc.prems(1) obtain x f1 xs' where
    a: "rd f = Inr (x, f1)" and b: "read_many rd n f1 = Inr (xs', f')"
    by (auto split: sum.splits prod.splits)
  have "steps g f1" using a Suc.prems(2) by (rule assms)
  then show ?case using b Suc.IH by blast
qed

lemma steps_read_vert_groups:
  "read_many VertGroup_read n f = Inr (xs, f') \<Longrightarrow> steps g f \<Longrightarrow> steps g f'"
  by (erule steps_read_many [rotated]) (auto intro: steps_VertGroup_read)

lemma decode_nonempty: "decode_ascii_ignore bs \<noteq> [] \<Longrightarrow> bs \<noteq> []"
  by (auto simp: decode_ascii_ignore_def)

lemma read_name_nonempty:
  assumes "read_name f = (nm, f2)" and "nm \<noteq> []"
  shows "pos f + 4 \<le> pos f2 \<and> pos f2 \<le> length (data f)"
proof -
  obtain nl f1 where a: "readinto_word (0 :: 16 word) f = (nl, f1)" by fastforce
  obtain raw where b: "read (unat nl) f1 = (raw, f2)" and c: "nm = decode_ascii_ignore (butlast raw)"
    using assms(1) a by (auto simp: read_name_def split: prod.splits)
  have "butlast raw \<noteq> []" using c assms(2) decode_nonempty by blast
  then have l: "2 \<le> length raw"
    by (cases raw rule: rev_cases) (auto simp: Suc_le_eq)
  have p1: "pos f1 = pos f + min 2 (length (data f) - pos f)"
    using a by (auto simp: readinto_word_def readinto_def Let_def)
  have d1: "data f1 = data f"
    using a by (auto simp: readinto_word_def readinto_def Let_def)
  have r: "raw = take (unat nl) (drop (pos f1) (data f1))" "pos f2 = pos f1 + length raw"
    using b by (auto simp: read_def Let_def)
  have "length raw \<le> length (data f1) - pos f1" using r(1) by simp
  then show ?thesis using l p1 d1 r(2) by auto
qed

lemma Mesh_read_progress:
  assumes "Mesh_read lvl f = Inr (m, f')"
  shows "data f' = data f \<and> pos f < length (data f) \<and> pos f \<le> pos f'"
proof -
  have "steps f f' \<and> pos f + 4 \<le> length (data f)"
    using assms unfolding Mesh_read_def
    apply (clarsimp split: prod.splits if_splits sum.splits)
    apply (frule read_name_nonempty, simp)
    apply (drule steps_read_name [OF _ steps_refl])
    apply (drule (1) steps_intros steps_read_vert_groups)+
    apply simp
    done
  then show ?thesis by (auto simp: steps_def)
qed

lemma marker_then_mesh:
  assumes "readinto_word (w :: 32 word) f = (bt, f1)" and "Mesh_read lvl f1 = Inr (m, f2)"
  shows "data f2 = data f \<and> pos f < length (data f) \<and> pos f < pos f2"
proof -
  have p1: "pos f1 = pos f + min 4 (length (data f) - pos f)" and d1: "data f1 = data f"
    using assms(1) by (auto simp: readinto_word_def readinto_def Let_def)
  show ?thesis using Mesh_read_progress [OF assms(2)] p1 d1 by auto
qed

lemma loop_step_decreases:
  assumes "0 < in_mesh s" and "loop_step s = Inr s'"
  shows "loop_measure s' < loop_measure s"
proof -
  obtain bt f1 where r: "readinto_word (block_type s) (infile s) = (bt, f1)" by fastforce
  have d1: "data f1 = data (infile s)" and p1: "pos (infile s) \<le> pos f1"
    using r by (auto simp: readinto_word_def readinto_def Let_def)
  consider (child) "bt = MSH_CHILD" | (sibling) "bt \<noteq> MSH_CHILD" "bt = MSH_SIBLING"
    | (endm) "bt \<noteq> MSH_CHILD" "bt \<noteq> MSH_SIBLING" "bt = MSH_END"
    | (other) "bt \<noteq> MSH_CHILD" "bt \<noteq> MSH_SIBLING" "bt \<noteq> MSH_END" by blast
  then show ?thesis
  proof cases
    case child
    then obtain m f2 where m: "Mesh_read (indentation_level s + 1) f1 = Inr (m, f2)"
      and s': "infile s' = f2" "in_mesh s' = in_mesh s + 1"
      using assms(2) r
      by (auto simp: loop_step_def Let_def split: sum.splits prod.splits if_splits)
    show ?thesis using marker_then_mesh [OF r m] s' assms(1)
      by (auto simp: loop_measure_def)
  next
    case sibling
    then obtain m f2 where m: "Mesh_read (indentation_level s) f1 = Inr (m, f2)"
      and s': "infile s' = f2" "in_mesh s' = in_mesh s + 1"
      using assms(2) r
      by (auto simp: loop_step_def Let_def split: sum.splits prod.splits if_splits)
    show ?thesis using marker_then_mesh [OF r m] s' assms(1)
      by (auto simp: loop_measure_def)
  next
    case endm
    then have "infile s' = f1" "in_mesh s' = in_mesh s - 1"
      using assms(2) r by (auto simp: loop_step_def)
    then show ?thesis using d1 p1 assms(1) by (auto simp: loop_measure_def)
  next
    case other
    then show ?thesis using assms(2) r by (auto simp: loop_step_def)
  qed
qed

termination mesh_loop
  by (relation "measure loop_measure") (auto intro: loop_step_decreases)

declare mesh_loop.simps [simp del]

section \<open>Markers\<close>

lemma nat_le_4:
  "nat_le 4 n = [of_nat (n mod 256), of_nat (n div 256 mod 256),
                 of_nat (n div 256 div 256 mod 256), of_nat (n div 256 div 256 div 256 mod 256)]"
proof -
  have "(4 :: nat) = Suc (Suc (Suc (Suc 0)))" by simp
  then show ?thesis by (simp only: nat_le.simps)
qed


lemma word_bytes32:
  "word_bytes (w :: 32 word) = nat_le 4 (unat w)"
  by (simp add: word_bytes_def)

lemma word_bytes_MSH_END: "word_bytes MSH_END = [0x64, 0xB8, 0x3E, 0xA9]"
  by (simp add: word_bytes32 nat_le_4 MSH_END_def)

lemma word_bytes_MSH_EOF: "word_bytes MSH_EOF = [0xF1, 0x47, 0xBB, 0xE3]"
  by (simp add: word_bytes32 nat_le_4 MSH_EOF_def)

lemma word_bytes_MSH_CHILD: "word_bytes MSH_CHILD = [0xEE, 0x51, 0x4C, 0xF7]"
  by (simp add: word_bytes32 nat_le_4 MSH_CHILD_def)


lemma length_readinto [simp]: "length (fst (readinto buf f)) = length buf"
  by (auto simp: readinto_def Let_def)

lemma readinto_word_eq_iff:
  "fst (readinto_word (w :: 32 word) f) = v \<longleftrightarrow> fst (readinto (word_bytes w) f) = word_bytes v"
proof -
  have l: "length (fst (readinto (word_bytes w) f)) = 4" by simp
  show ?thesis
    using word_bytes_word32 [OF l]
    by (auto simp: readinto_word_def split: prod.splits)
qed

lemma truncated_marker_not_EOF:
  assumes "length (remaining f) < 4"
  shows "fst (readinto_word MSH_END f) \<noteq> MSH_EOF"
proof -
  have "fst (readinto (word_bytes MSH_END) f) ! 3 = 0xA9"
    using assms
    by (auto simp: readinto_def Let_def remaining_def word_bytes_MSH_END nth_append min_def)
  then have "fst (readinto (word_bytes MSH_END) f) \<noteq> word_bytes MSH_EOF"
    by (auto simp: word_bytes_MSH_EOF)
  then show ?thesis by (simp add: readinto_word_eq_iff)
qed

lemma other_marker_not_EOF:
  assumes "4 \<le> length (remaining f)" and "take 4 (remaining f) \<noteq> word_bytes MSH_EOF"
  shows "fst (readinto_word (w :: 32 word) f) \<noteq> MSH_EOF"
proof -
  have "fst (readinto (word_bytes w) f) = take 4 (remaining f)"
    using assms(1) by (simp add: readinto_def Let_def remaining_def min_def)
  then show ?thesis using assms(2) by (simp add: readinto_word_eq_iff)
qed

lemma loop_step_closes:
  assumes "loop_step s = Inr s1" and "0 < in_mesh s"
  shows "0 < in_mesh s1 \<or> block_type s1 = MSH_END"
proof -
  obtain bt f1 where r: "readinto_word (block_type s) (infile s) = (bt, f1)" by fastforce
  consider (child) "bt = MSH_CHILD" | (sibling) "bt \<noteq> MSH_CHILD" "bt = MSH_SIBLING"
    | (endm) "bt \<noteq> MSH_CHILD" "bt \<noteq> MSH_SIBLING" "bt = MSH_END"
    | (other) "bt \<noteq> MSH_CHILD" "bt \<noteq> MSH_SIBLING" "bt \<noteq> MSH_END" by blast
  then show ?thesis
  proof cases
    case child
    then have "in_mesh s1 = in_mesh s + 1"
      using assms(1) r
      by (auto simp: loop_step_def Let_def split: sum.splits prod.splits if_splits)
    then show ?thesis using assms(2) by simp
  next
    case sibling
    then have "in_mesh s1 = in_mesh s + 1"
      using assms(1) r
      by (auto simp: loop_step_def Let_def split: sum.splits prod.splits if_splits)
    then show ?thesis using assms(2) by simp
  next
    case endm
    then have "block_type s1 = MSH_END"
      using assms(1) r by (auto simp: loop_step_def)
    then show ?thesis by simp
  next
    case other
    then show ?thesis using assms(1) r by (auto simp: loop_step_def)
  qed
qed

lemma mesh_loop_exit_marker:
  "mesh_loop s = Inr s' \<Longrightarrow> 0 < in_mesh s \<or> block_type s = MSH_END \<Longrightarrow> block_type s' = MSH_END"
proof (induction s rule: mesh_loop.induct)
  case (1 s)
  show ?case
  proof (cases "0 < in_mesh s")
    case True
    then obtain s1 where a: "loop_step s = Inr s1" and b: "mesh_loop s1 = Inr s'"
      using "1.prems"(1) by (subst (asm) mesh_loop.simps) (auto split: sum.splits)
    show ?thesis using "1.IH" [OF True a b] loop_step_closes [OF a True] by blast
  next
    case False
    then show ?thesis using "1.prems" by (subst (asm) mesh_loop.simps) auto
  qed
qed

text \<open>
  C5. In any state of the loop over the markers that is still open (\<open>in_mesh\<close> positive),
  when the marker read at the cursor, into the loop's \<^verbatim>\<open>c_uint32\<close>, is none of CHILD, SIBLING
  and END, this turn of the loop raises \<open>UnknownBlock\<close> with that marker, and so does the
  loop: nothing more is read, no mesh is built or attached, and the decode ends there. The
  marker may be any value, that of the old encoding included.
\<close>

theorem unknown_marker_fails:
  assumes "0 < in_mesh s"
    and "readinto_word (block_type s) (infile s) = (bt, f1)"
    and "bt \<noteq> MSH_CHILD" and "bt \<noteq> MSH_SIBLING" and "bt \<noteq> MSH_END"
  shows "loop_step s = Inl (UnknownBlock bt) \<and> mesh_loop s = Inl (UnknownBlock bt)"
proof -
  have "loop_step s = Inl (UnknownBlock bt)"
    using assms by (simp add: loop_step_def)
  then show ?thesis using assms(1) by (subst mesh_loop.simps) simp
qed

theorem unknown_marker_fails_witness:
  "mesh_loop \<lparr>infile = \<lparr>data = [9, 9, 1, 0, 0, 0, 5], pos = 2\<rparr>, heap = [], mesh_at = [],
              indentation_level = 0, in_mesh = 1, block_type = 0\<rparr> = Inl (UnknownBlock 1)"
  using unknown_marker_fails
    [of "\<lparr>infile = \<lparr>data = [9, 9, 1, 0, 0, 0, 5], pos = 2\<rparr>, heap = [], mesh_at = [],
           indentation_level = 0, in_mesh = 1, block_type = 0\<rparr>" 1
        "\<lparr>data = [9, 9, 1, 0, 0, 0, 5], pos = 6\<rparr>"]
  by (simp add: readinto_word32_avail word_of_bytes_1000 advance_def
        MSH_CHILD_def MSH_SIBLING_def MSH_END_def)

section \<open>What is written is read back\<close>

declare unindent.simps [simp del] snapshot.simps [simp del]

lemma length_word_bytes_any: "length (word_bytes (w :: 'a::len word)) = LENGTH('a) div 8"
  by (simp add: word_bytes_def)

lemma readinto_word16_full:
  "remaining f = word_bytes (w :: 16 word) @ rest \<Longrightarrow>
   readinto_word (old :: 16 word) f = (w, advance 2 f)"
  using readinto_full [of f "word_bytes w" rest "word_bytes old"]
  by (simp add: readinto_word_def)

lemma readinto_struct_full:
  "remaining f = bs @ rest \<Longrightarrow> length bs = sz \<Longrightarrow> readinto_struct sz f = (bs, advance sz f)"
  using readinto_full [of f bs rest "replicate sz 0"]
  by (simp add: readinto_struct_def)

lemma read_full:
  "remaining f = bs @ rest \<Longrightarrow> read (length bs) f = (bs, advance (length bs) f)"
  by (simp add: read_def remaining_def advance_def Let_def)

lemma chunks_concat:
  "list_all (\<lambda>x. length x = sz) a \<Longrightarrow> chunks sz (length a) (concat a @ rest) = a"
  by (induction a) auto

lemma length_concat_fixed:
  "list_all (\<lambda>x. length x = sz) a \<Longrightarrow> length (concat a) = length a * sz"
  by (induction a) auto

lemma read_array_full:
  assumes "remaining f = concat a @ rest" and "list_all (\<lambda>x. length x = sz) a"
  shows "read_array sz (length a) f = (a, advance (length (concat a)) f)"
proof -
  have l: "length (concat a) = length a * sz" using assms(2) by (rule length_concat_fixed)
  have "readinto (replicate (length a * sz) 0) f = (concat a, advance (length (concat a)) f)"
    using readinto_full [OF assms(1), of "replicate (length a * sz) 0"] l by simp
  then show ?thesis
    using chunks_concat [OF assms(2), of "[]"] by (simp add: read_array_def)
qed

lemma unat_of_nat32: "n < 2 ^ 32 \<Longrightarrow> unat (of_nat n :: 32 word) = n"
  by (simp add: unat_of_nat)

lemma unat_of_nat16: "n < 2 ^ 16 \<Longrightarrow> unat (of_nat n :: 16 word) = n"
  by (simp add: unat_of_nat)

text \<open>The two statements that read an array: its count, then its elements.\<close>

lemma count_full:
  assumes "remaining f = write_array a @ rest"
  shows "readinto_word (old :: 32 word) f = (of_nat (length a), advance 4 f)"
proof -
  have "remaining f = word_bytes (of_nat (length a) :: 32 word) @ concat a @ rest"
    using assms by (simp add: write_array_def)
  then show ?thesis by (rule readinto_word32_full)
qed

lemma array_full:
  assumes "remaining f = write_array a @ rest" and "wf_array sz a"
  shows "read_array sz (unat (of_nat (length a) :: 32 word)) (advance 4 f)
           = (a, advance (length (write_array a)) f)"
proof -
  have "remaining (advance 4 f) = concat a @ rest"
    using assms(1) by (simp add: write_array_def)
  then have "read_array sz (length a) (advance 4 f) = (a, advance (length (concat a)) (advance 4 f))"
    using assms(2) by (intro read_array_full) (simp_all add: wf_array_def)
  then show ?thesis
    using assms(2) by (simp add: wf_array_def unat_of_nat32 write_array_def add.commute)
qed

lemma encode_ascii: "ascii s \<Longrightarrow> encode s = map (\<lambda>c. of_nat (of_char c)) s"
  by (induction s) (auto simp: ascii_def encode_def)

lemma decode_encode: "ascii s \<Longrightarrow> decode_ascii_ignore (encode s) = s"
proof (induction s)
  case Nil
  then show ?case by (simp add: encode_def decode_ascii_ignore_def)
next
  case (Cons c s)
  then have a: "(of_char c :: nat) < 128" and b: "ascii s" by (auto simp: ascii_def)
  have "unat (of_nat (of_char c) :: byte) = of_char c"
    using a by (simp add: unat_of_nat)
  then show ?case using Cons.IH [OF b] a b
    by (simp add: encode_ascii [of "c # s"] encode_ascii [of s] Cons.prems decode_ascii_ignore_def)
qed

lemma length_encode: "ascii s \<Longrightarrow> length (encode s) = length s"
  by (simp add: encode_ascii)

lemma length_write_name: "wf_name s \<Longrightarrow> length (write_name s) = length s + 3"
  by (simp add: write_name_def wf_name_def length_encode Let_def)

lemma read_name_full:
  assumes "remaining f = write_name s @ rest" and "wf_name s"
  shows "read_name f = (s, advance (length (write_name s)) f)"
proof -
  have a: "ascii s" and l: "length s + 1 < 2 ^ 16" using assms(2) by (auto simp: wf_name_def)
  let ?n = "of_nat (length s + 1) :: 16 word"
  have r: "remaining f = word_bytes ?n @ (encode s @ [0]) @ rest"
    using assms(1) a by (simp add: write_name_def length_encode Let_def)
  have 1: "readinto_word (0 :: 16 word) f = (?n, advance 2 f)"
    using r by (rule readinto_word16_full)
  have u: "unat ?n = length (encode s @ [0])"
    using l a unat_of_nat16 [of "length s + 1"] by (simp add: length_encode)
  have "remaining (advance 2 f) = (encode s @ [0]) @ rest" using r by simp
  then have 2: "read (unat ?n) (advance 2 f) = (encode s @ [0], advance (length (encode s @ [0])) (advance 2 f))"
    unfolding u by (rule read_full)
  show ?thesis
    using 1 2 a assms(2)
    by (simp add: read_name_def decode_encode length_write_name length_encode add.commute)
qed

lemma write_optionals_alt:
  "write_optionals m t e =
     (case m of None \<Rightarrow> [] | Some x \<Rightarrow> word_bytes MSH_MATERIAL @ write_material x)
     @ (case t of None \<Rightarrow> [] | Some x \<Rightarrow> word_bytes MSH_TEXTURE @ write_texture x)"
  by (simp add: write_optionals_def write_material_def write_texture_def
        DISABLE_END_OF_OPTIONALS_def split: option.splits)

lemma Material_read_full:
  assumes "remaining f = write_material m @ rest" and "wf_Material m"
  shows "Material_read f = (m, advance (length (write_material m)) f)"
proof -
  let ?n = "length (write_name (mat_name m))"
  have w: "wf_name (mat_name m)" and l: "length (diffuse m) = 16" "length (specular m) = 16"
      "length (emissive m) = 16" "length (ambient m) = 16"
    using assms(2) by (auto simp: wf_Material_def sizeof_ColorValue_def)
  have r: "remaining f = write_name (mat_name m) @ diffuse m @ specular m
                  @ word_bytes (specular_power m) @ emissive m @ ambient m @ rest"
    using assms(1) by (simp add: write_material_def)
  have 1: "read_name f = (mat_name m, advance ?n f)"
    using r w by (rule read_name_full)
  have 2: "readinto_struct sizeof_ColorValue (advance ?n f) = (diffuse m, advance (?n + 16) f)"
    using readinto_struct_full [of "advance ?n f" "diffuse m" _ 16] r l
    by (simp add: sizeof_ColorValue_def)
  have 3: "readinto_struct sizeof_ColorValue (advance (?n + 16) f) = (specular m, advance (?n + 32) f)"
    using readinto_struct_full [of "advance (?n + 16) f" "specular m" _ 16] r l
    by (simp add: sizeof_ColorValue_def)
  have 4: "readinto_word 0 (advance (?n + 32) f) = (specular_power m, advance (?n + 36) f)"
    using readinto_word32_full [of "advance (?n + 32) f" "specular_power m" _ 0] r l
    by simp
  have 5: "readinto_struct sizeof_ColorValue (advance (?n + 36) f) = (emissive m, advance (?n + 52) f)"
    using readinto_struct_full [of "advance (?n + 36) f" "emissive m" _ 16] r l
    by (simp add: sizeof_ColorValue_def)
  have 6: "readinto_struct sizeof_ColorValue (advance (?n + 52) f) = (ambient m, advance (?n + 68) f)"
    using readinto_struct_full [of "advance (?n + 52) f" "ambient m" _ 16] r l
    by (simp add: sizeof_ColorValue_def)
  show ?thesis
    unfolding Material_read_def using l by (simp add: 1 2 3 4 5 6 write_material_def)
qed

lemma Texture_read_full:
  assumes "remaining f = write_texture t @ rest" and "wf_Texture t"
  shows "Texture_read f = (t, advance (length (write_texture t)) f)"
proof -
  let ?n = "length (write_name (tex_name t))"
  have w: "wf_name (tex_name t)" using assms(2) by (simp add: wf_Texture_def)
  have r: "remaining f = write_name (tex_name t) @ word_bytes (texture_type t)
                  @ word_bytes (mipmaps t) @ rest"
    using assms(1) by (simp add: write_texture_def)
  have 1: "read_name f = (tex_name t, advance ?n f)"
    using r w by (rule read_name_full)
  have 2: "readinto_word 0 (advance ?n f) = (texture_type t, advance (?n + 4) f)"
    using readinto_word32_full [of "advance ?n f" "texture_type t" _ 0] r by simp
  have 3: "readinto_word 0 (advance (?n + 4) f) = (mipmaps t, advance (?n + 8) f)"
    using readinto_word32_full [of "advance (?n + 4) f" "mipmaps t" _ 0] r by simp
  show ?thesis
    unfolding Texture_read_def by (simp add: 1 2 3 write_texture_def)
qed

lemma slot_hit:
  assumes "remaining f = word_bytes tag @ bs @ rest"
    and "rd (advance 4 f) = (x, advance (4 + length bs) f)"
  shows "slot tag rd btc f = Inr ((Some x, tag), advance (4 + length bs) f)"
  using readinto_word32_full [OF assms(1), of btc] assms(2)
  by (simp add: slot_def)

lemma slot_miss:
  assumes "4 \<le> length (remaining f)" and "bytes_word (take 4 (remaining f)) = v" and "v \<noteq> tag"
  shows "slot tag rd btc f = Inr ((None, v), f)"
proof -
  have "pos f + 4 \<le> length (data f)" using assms(1) by (simp add: remaining_def)
  then show ?thesis
    using assms(2,3) by (simp add: slot_def readinto_word32_avail rewind4 remaining_def)
qed

lemma tags_differ:
  "MSH_TEXTURE \<noteq> MSH_MATERIAL" "MSH_MATERIAL \<noteq> MSH_TEXTURE"
  "MSH_END_OF_OPTIONALS \<noteq> MSH_MATERIAL" "MSH_END_OF_OPTIONALS \<noteq> MSH_TEXTURE"
  by (simp_all add: MSH_TEXTURE_def MSH_MATERIAL_def MSH_END_OF_OPTIONALS_def)

lemma take4_word_bytes [simp]: "take 4 (word_bytes (w :: 32 word) @ rest) = word_bytes w"
  by simp

lemma read_optional_blocks_full:
  assumes r: "remaining f = write_optionals m t e @ rest"
    and wm: "case m of None \<Rightarrow> True | Some x \<Rightarrow> wf_Material x"
    and wt: "case t of None \<Rightarrow> True | Some x \<Rightarrow> wf_Texture x"
    and l: "4 \<le> length rest"
    and ok: "follow_ok m t (bytes_word (take 4 rest))"
  shows "read_optional_blocks f
           = Inr ((m, t, False), advance (length (write_optionals m t e)) f)"
proof -
  let ?v = "bytes_word (take 4 rest) :: 32 word"
  define mb where "mb = (case m of None \<Rightarrow> [] | Some x \<Rightarrow> word_bytes MSH_MATERIAL @ write_material x)"
  define tb where "tb = (case t of None \<Rightarrow> [] | Some x \<Rightarrow> word_bytes MSH_TEXTURE @ write_texture x)"
  have w: "write_optionals m t e = mb @ tb"
    by (simp add: write_optionals_alt mb_def tb_def)
  have r': "remaining f = mb @ tb @ rest" using r w by simp
  have s1: "\<exists>b. slot MSH_MATERIAL Material_read 0 f = Inr ((m, b), advance (length mb) f)
              \<and> (m = None \<and> t = None \<longrightarrow> b = ?v)"
  proof (cases m)
    case None
    show ?thesis
    proof (cases t)
      case None
      have "slot MSH_MATERIAL Material_read 0 f = Inr ((None, ?v), f)"
        using r' l ok \<open>m = None\<close> None
        by (intro slot_miss) (auto simp: mb_def tb_def follow_ok_def)
      then show ?thesis using \<open>m = None\<close> by (simp add: mb_def)
    next
      case (Some x)
      have "slot MSH_MATERIAL Material_read 0 f = Inr ((None, MSH_TEXTURE), f)"
        using r' \<open>m = None\<close> Some
        by (intro slot_miss) (auto simp: mb_def tb_def tags_differ)
      then show ?thesis using \<open>m = None\<close> Some by (simp add: mb_def)
    qed
  next
    case (Some x)
    have a: "remaining f = word_bytes MSH_MATERIAL @ write_material x @ tb @ rest"
      using r' Some by (simp add: mb_def)
    have "Material_read (advance 4 f) = (x, advance (length (write_material x)) (advance 4 f))"
      using a wm Some by (intro Material_read_full [where rest = "tb @ rest"]) simp_all
    then have "slot MSH_MATERIAL Material_read 0 f
                 = Inr ((Some x, MSH_MATERIAL), advance (4 + length (write_material x)) f)"
      using a by (intro slot_hit) simp_all
    then show ?thesis using Some by (simp add: mb_def)
  qed
  then obtain b1 where
    s1: "slot MSH_MATERIAL Material_read 0 f = Inr ((m, b1), advance (length mb) f)" by blast
  define f1 where "f1 = advance (length mb) f"
  have r1: "remaining f1 = tb @ rest" using r' by (simp add: f1_def)
  have s2: "\<exists>b. slot MSH_TEXTURE Texture_read b1 f1 = Inr ((t, b), advance (length tb) f1)"
  proof (cases t)
    case None
    have "slot MSH_TEXTURE Texture_read b1 f1 = Inr ((None, ?v), f1)"
      using r1 l ok None
      by (intro slot_miss) (auto simp: tb_def follow_ok_def)
    then show ?thesis using None by (simp add: tb_def)
  next
    case (Some x)
    have a: "remaining f1 = word_bytes MSH_TEXTURE @ write_texture x @ rest"
      using r1 Some by (simp add: tb_def)
    have "Texture_read (advance 4 f1) = (x, advance (length (write_texture x)) (advance 4 f1))"
      using a wt Some by (intro Texture_read_full [where rest = rest]) simp_all
    then have "slot MSH_TEXTURE Texture_read b1 f1
                 = Inr ((Some x, MSH_TEXTURE), advance (4 + length (write_texture x)) f1)"
      using a by (intro slot_hit) simp_all
    then show ?thesis using Some by (simp add: tb_def)
  qed
  then obtain b2 where
    s2: "slot MSH_TEXTURE Texture_read b1 f1 = Inr ((t, b2), advance (length tb) f1)" by blast
  define f2 where "f2 = advance (length tb) f1"
  have r2: "remaining f2 = rest" using r1 by (simp add: f2_def)
  have s3: "slot MSH_END_OF_OPTIONALS (\<lambda>f. ((), f)) b2 f2 = Inr ((None, ?v), f2)"
    using r2 l ok by (intro slot_miss) (auto simp: follow_ok_def)
  show ?thesis
    unfolding read_optional_blocks_slots using s1 s2 s3 w by (simp add: f1_def f2_def)
qed

lemma VertGroup_read_full:
  assumes r: "remaining f = write_vert_group g @ rest" and w: "wf_VertGroup g"
    and l: "4 \<le> length rest"
    and ok: "follow_ok (vg_material g) (vg_texture g) (bytes_word (take 4 rest))"
  shows "VertGroup_read f = Inr (clear_vg g, advance (length (write_vert_group g)) f)"
proof -
  let ?o = "write_optionals (vg_material g) (vg_texture g) (vg_end_marker g)"
  have r': "remaining f = word_bytes (vg_state_index g) @ word_bytes (vg_vert_count g)
              @ word_bytes (vg_index_count g) @ word_bytes (plane_index g) @ ?o @ rest"
    using r by (simp add: write_vert_group_def)
  have 1: "readinto_word 0 f = (vg_state_index g, advance 4 f)"
    using r' by (rule readinto_word32_full)
  have 2: "readinto_word 0 (advance 4 f) = (vg_vert_count g, advance 8 f)"
    using readinto_word32_full [of "advance 4 f" "vg_vert_count g" _ 0] r' by simp
  have 3: "readinto_word 0 (advance 8 f) = (vg_index_count g, advance 12 f)"
    using readinto_word32_full [of "advance 8 f" "vg_index_count g" _ 0] r' by simp
  have 4: "readinto_word 0 (advance 12 f) = (plane_index g, advance 16 f)"
    using readinto_word32_full [of "advance 12 f" "plane_index g" _ 0] r' by simp
  have "remaining (advance 16 f) = ?o @ rest" using r' by simp
  then have 5: "read_optional_blocks (advance 16 f)
      = Inr ((vg_material g, vg_texture g, False), advance (length ?o) (advance 16 f))"
    using w l ok by (intro read_optional_blocks_full) (simp_all add: wf_VertGroup_def wf_optionals_def)
  show ?thesis
    unfolding VertGroup_read_def
    by (simp add: 1 2 3 4 5 clear_vg_def write_vert_group_def add.commute)
qed

lemma BuckyDesc_read_full:
  assumes r: "remaining f = write_bucky b @ rest" and w: "wf_BuckyDesc b"
    and l: "4 \<le> length rest"
    and ok: "follow_ok (bd_material b) (bd_texture b) (bytes_word (take 4 rest))"
  shows "BuckyDesc_read f = Inr (clear_bd b, advance (length (write_bucky b)) f)"
proof -
  let ?o = "write_optionals (bd_material b) (bd_texture b) (bd_end_marker b)"
  have r': "remaining f = word_bytes (flags b) @ word_bytes (bd_index_count b)
              @ word_bytes (bd_vert_count b) @ ?o @ rest"
    using r by (simp add: write_bucky_def)
  have 1: "readinto_word 0 f = (flags b, advance 4 f)"
    using r' by (rule readinto_word32_full)
  have 2: "readinto_word 0 (advance 4 f) = (bd_index_count b, advance 8 f)"
    using readinto_word32_full [of "advance 4 f" "bd_index_count b" _ 0] r' by simp
  have 3: "readinto_word 0 (advance 8 f) = (bd_vert_count b, advance 12 f)"
    using readinto_word32_full [of "advance 8 f" "bd_vert_count b" _ 0] r' by simp
  have "remaining (advance 12 f) = ?o @ rest" using r' by simp
  then have 5: "read_optional_blocks (advance 12 f)
      = Inr ((bd_material b, bd_texture b, False), advance (length ?o) (advance 12 f))"
    using w l ok by (intro read_optional_blocks_full) (simp_all add: wf_BuckyDesc_def wf_optionals_def)
  show ?thesis
    unfolding BuckyDesc_read_def
    by (simp add: 1 2 3 5 clear_bd_def write_bucky_def add.commute)
qed

lemma take4_write_vert_group:
  "take 4 (write_vert_group g @ rest) = word_bytes (vg_state_index g)"
  by (simp add: write_vert_group_def)

lemma take4_write_bucky:
  "take 4 (write_bucky b @ rest) = word_bytes (flags b)"
  by (simp add: write_bucky_def)

lemma length_write_vert_group: "4 \<le> length (write_vert_group g)"
  by (simp add: write_vert_group_def)

lemma length_write_bucky: "4 \<le> length (write_bucky g)"
  by (simp add: write_bucky_def)

lemma read_vert_groups_full:
  assumes "remaining f = concat (map write_vert_group gs) @ rest"
    and "list_all wf_VertGroup gs" and "4 \<le> length rest"
    and "vert_groups_follow gs (bytes_word (take 4 rest))"
  shows "read_many VertGroup_read (length gs) f
           = Inr (map clear_vg gs, advance (length (concat (map write_vert_group gs))) f)"
  using assms
proof (induction gs arbitrary: f)
  case Nil
  then show ?case by simp
next
  case (Cons g gs)
  let ?rest = "concat (map write_vert_group gs) @ rest"
  have r: "remaining f = write_vert_group g @ ?rest" using Cons.prems(1) by simp
  have l: "4 \<le> length ?rest" using Cons.prems(3) by simp
  have t: "bytes_word (take 4 ?rest) = (case gs of [] \<Rightarrow> bytes_word (take 4 rest) | g' # _ \<Rightarrow> vg_state_index g')"
    by (cases gs) (simp_all add: take4_write_vert_group del: take_append)
  have ok: "follow_ok (vg_material g) (vg_texture g) (bytes_word (take 4 ?rest))"
    using Cons.prems(4) unfolding t by simp
  have 1: "VertGroup_read f = Inr (clear_vg g, advance (length (write_vert_group g)) f)"
    using r _ l ok by (rule VertGroup_read_full) (use Cons.prems(2) in simp)
  have "remaining (advance (length (write_vert_group g)) f) = ?rest" using r by simp
  then have 2: "read_many VertGroup_read (length gs) (advance (length (write_vert_group g)) f)
      = Inr (map clear_vg gs, advance (length (concat (map write_vert_group gs)))
               (advance (length (write_vert_group g)) f))"
    using Cons.prems by (intro Cons.IH) simp_all
  show ?case by (simp add: 1 2)
qed

lemma read_buckys_full:
  assumes "remaining f = concat (map write_bucky gs) @ rest"
    and "list_all wf_BuckyDesc gs" and "4 \<le> length rest"
    and "buckys_follow gs (bytes_word (take 4 rest))"
  shows "read_many BuckyDesc_read (length gs) f
           = Inr (map clear_bd gs, advance (length (concat (map write_bucky gs))) f)"
  using assms
proof (induction gs arbitrary: f)
  case Nil
  then show ?case by simp
next
  case (Cons g gs)
  let ?rest = "concat (map write_bucky gs) @ rest"
  have r: "remaining f = write_bucky g @ ?rest" using Cons.prems(1) by simp
  have l: "4 \<le> length ?rest" using Cons.prems(3) by simp
  have t: "bytes_word (take 4 ?rest) = (case gs of [] \<Rightarrow> bytes_word (take 4 rest) | g' # _ \<Rightarrow> flags g')"
    by (cases gs) (simp_all add: take4_write_bucky del: take_append)
  have ok: "follow_ok (bd_material g) (bd_texture g) (bytes_word (take 4 ?rest))"
    using Cons.prems(4) unfolding t by simp
  have 1: "BuckyDesc_read f = Inr (clear_bd g, advance (length (write_bucky g)) f)"
    using r _ l ok by (rule BuckyDesc_read_full) (use Cons.prems(2) in simp)
  have "remaining (advance (length (write_bucky g)) f) = ?rest" using r by simp
  then have 2: "read_many BuckyDesc_read (length gs) (advance (length (write_bucky g)) f)
      = Inr (map clear_bd gs, advance (length (concat (map write_bucky gs)))
               (advance (length (write_bucky g)) f))"
    using Cons.prems by (intro Cons.IH) simp_all
  show ?case by (simp add: 1 2)
qed

lemma length_write_vert_index [simp]: "length (write_vert_index v) = 6"
  by (simp add: write_vert_index_def)




lemma Anim_read_full:
  assumes "remaining f = write_anim a @ rest" and "wf_Anim a"
  shows "Anim_read f = Inr (a, advance (length (write_anim a)) f)"
proof -
  have r: "remaining f = word_bytes (anim_index a) @ word_bytes (anim_max_frame a)
             @ write_array (anim_states a) @ rest"
    using assms(1) by (simp add: write_anim_def)
  have 1: "readinto_word 0 f = (anim_index a, advance 4 f)"
    using r by (rule readinto_word32_full)
  have 2: "readinto_word 0 (advance 4 f) = (anim_max_frame a, advance 8 f)"
    using readinto_word32_full [of "advance 4 f" "anim_max_frame a" _ 0] r by simp
  have r8: "remaining (advance 8 f) = write_array (anim_states a) @ rest" using r by simp
  note 3 = count_full [OF r8, of 0] array_full [OF r8, of sizeof_AnimKey]
  show ?thesis
    unfolding Anim_read_def using assms(2) 3
    by (simp add: 1 2 wf_Anim_def write_anim_def add.commute)
qed

lemma read_anims_full:
  assumes "remaining f = concat (map write_anim as) @ rest" and "list_all wf_Anim as"
  shows "read_many Anim_read (length as) f
           = Inr (as, advance (length (concat (map write_anim as))) f)"
  using assms
proof (induction as arbitrary: f)
  case Nil
  then show ?case by simp
next
  case (Cons a as)
  have r: "remaining f = write_anim a @ concat (map write_anim as) @ rest"
    using Cons.prems(1) by simp
  have 1: "Anim_read f = Inr (a, advance (length (write_anim a)) f)"
    using r by (rule Anim_read_full) (use Cons.prems(2) in simp)
  have "remaining (advance (length (write_anim a)) f) = concat (map write_anim as) @ rest"
    using r by simp
  then have 2: "read_many Anim_read (length as) (advance (length (write_anim a)) f)
      = Inr (as, advance (length (concat (map write_anim as))) (advance (length (write_anim a)) f))"
    using Cons.prems(2) by (intro Cons.IH) simp_all
  show ?case by (simp add: 1 2)
qed

lemma array_full2:
  assumes "remaining f = concat a @ rest" and "wf_array sz a"
  shows "read_array sz (unat (of_nat (length a) :: 32 word)) f = (a, advance (length (concat a)) f)"
  using read_array_full [OF assms(1), of sz] assms(2)
  by (simp add: wf_array_def unat_of_nat32)

lemma take4_write_array: "take 4 (write_array a @ rest) = word_bytes (of_nat (length a) :: 32 word)"
  by (simp add: write_array_def)

lemma Mesh_read_full:
  assumes "remaining f = write_mesh_body b @ rest" and "wf_MeshBody b"
  shows "Mesh_read lvl f
           = Inr (\<lparr>obj_body = clear_body b, obj_child = None, obj_sibling = None,
                   obj_meshes = [], obj_level = lvl\<rparr>,
                  advance (length (write_mesh_body b)) f)"
proof -
  have w: "wf_name (name b)" "name b \<noteq> []" "length (matrix b) = sizeof_Matrix"
    "wf_array sizeof_Color (vert_colors b)" "wf_array sizeof_Plane (planes b)"
    "wf_array sizeof_Vertex (vertex b)"
    "length (vert_groups b) < 2 ^ 32" "list_all wf_VertGroup (vert_groups b)"
    "vert_groups_follow (vert_groups b) (of_nat (length (indices b)))"
    "wf_array sizeof_c_uint16 (indices b)"
    using assms(2) by (auto simp: wf_MeshBody_def)
  have u: "unat (of_nat (length (vert_groups b)) :: 32 word) = length (vert_groups b)"
    using w(7) by (rule unat_of_nat32)
  have r0: "remaining f = write_name (name b) @ word_bytes (state_index b) @ word_bytes (is_single_geom b) @ word_bytes (renderflags b) @ matrix b @ word_bytes (of_nat (length (vert_colors b)) :: 32 word) @ concat (vert_colors b) @ word_bytes (of_nat (length (planes b)) :: 32 word) @ concat (planes b) @ word_bytes (of_nat (length (vertex b)) :: 32 word) @ concat (vertex b) @ word_bytes (of_nat (length (vert_groups b)) :: 32 word) @ concat (map write_vert_group (vert_groups b)) @ word_bytes (of_nat (length (indices b)) :: 32 word) @ concat (indices b) @ rest"
    using assms(1) by (simp add: write_mesh_body_def write_array_def)
  define f1 where "f1 = advance (length (write_name (name b))) f"
  have s0: "read_name f = (name b, f1)"
    unfolding f1_def using read_name_full [OF r0] w(1) by simp
  have r1: "remaining f1 = word_bytes (state_index b) @ word_bytes (is_single_geom b) @ word_bytes (renderflags b) @ matrix b @ word_bytes (of_nat (length (vert_colors b)) :: 32 word) @ concat (vert_colors b) @ word_bytes (of_nat (length (planes b)) :: 32 word) @ concat (planes b) @ word_bytes (of_nat (length (vertex b)) :: 32 word) @ concat (vertex b) @ word_bytes (of_nat (length (vert_groups b)) :: 32 word) @ concat (map write_vert_group (vert_groups b)) @ word_bytes (of_nat (length (indices b)) :: 32 word) @ concat (indices b) @ rest"
    using r0 by (simp add: f1_def)
  define f2 where "f2 = advance (length (word_bytes (state_index b))) f1"
  have s1: "readinto_word 0 f1 = (state_index b, f2)"
    unfolding f2_def using readinto_word32_full [OF r1, of 0] by simp
  have r2: "remaining f2 = word_bytes (is_single_geom b) @ word_bytes (renderflags b) @ matrix b @ word_bytes (of_nat (length (vert_colors b)) :: 32 word) @ concat (vert_colors b) @ word_bytes (of_nat (length (planes b)) :: 32 word) @ concat (planes b) @ word_bytes (of_nat (length (vertex b)) :: 32 word) @ concat (vertex b) @ word_bytes (of_nat (length (vert_groups b)) :: 32 word) @ concat (map write_vert_group (vert_groups b)) @ word_bytes (of_nat (length (indices b)) :: 32 word) @ concat (indices b) @ rest"
    using r1 by (simp add: f2_def)
  define f3 where "f3 = advance (length (word_bytes (is_single_geom b))) f2"
  have s2: "readinto_word 0 f2 = (is_single_geom b, f3)"
    unfolding f3_def using readinto_word32_full [OF r2, of 0] by simp
  have r3: "remaining f3 = word_bytes (renderflags b) @ matrix b @ word_bytes (of_nat (length (vert_colors b)) :: 32 word) @ concat (vert_colors b) @ word_bytes (of_nat (length (planes b)) :: 32 word) @ concat (planes b) @ word_bytes (of_nat (length (vertex b)) :: 32 word) @ concat (vertex b) @ word_bytes (of_nat (length (vert_groups b)) :: 32 word) @ concat (map write_vert_group (vert_groups b)) @ word_bytes (of_nat (length (indices b)) :: 32 word) @ concat (indices b) @ rest"
    using r2 by (simp add: f3_def)
  define f4 where "f4 = advance (length (word_bytes (renderflags b))) f3"
  have s3: "readinto_word 0 f3 = (renderflags b, f4)"
    unfolding f4_def using readinto_word32_full [OF r3, of 0] by simp
  have r4: "remaining f4 = matrix b @ word_bytes (of_nat (length (vert_colors b)) :: 32 word) @ concat (vert_colors b) @ word_bytes (of_nat (length (planes b)) :: 32 word) @ concat (planes b) @ word_bytes (of_nat (length (vertex b)) :: 32 word) @ concat (vertex b) @ word_bytes (of_nat (length (vert_groups b)) :: 32 word) @ concat (map write_vert_group (vert_groups b)) @ word_bytes (of_nat (length (indices b)) :: 32 word) @ concat (indices b) @ rest"
    using r3 by (simp add: f4_def)
  define f5 where "f5 = advance (length (matrix b)) f4"
  have s4: "readinto_struct sizeof_Matrix f4 = (matrix b, f5)"
    unfolding f5_def using readinto_struct_full [OF r4, of sizeof_Matrix] w(3) by simp
  have r5: "remaining f5 = word_bytes (of_nat (length (vert_colors b)) :: 32 word) @ concat (vert_colors b) @ word_bytes (of_nat (length (planes b)) :: 32 word) @ concat (planes b) @ word_bytes (of_nat (length (vertex b)) :: 32 word) @ concat (vertex b) @ word_bytes (of_nat (length (vert_groups b)) :: 32 word) @ concat (map write_vert_group (vert_groups b)) @ word_bytes (of_nat (length (indices b)) :: 32 word) @ concat (indices b) @ rest"
    using r4 by (simp add: f5_def)
  define f6 where "f6 = advance (length (word_bytes (of_nat (length (vert_colors b)) :: 32 word))) f5"
  have s5: "readinto_word old f5 = ((of_nat (length (vert_colors b)) :: 32 word), f6)" for old
    unfolding f6_def using readinto_word32_full [OF r5] by simp
  have r6: "remaining f6 = concat (vert_colors b) @ word_bytes (of_nat (length (planes b)) :: 32 word) @ concat (planes b) @ word_bytes (of_nat (length (vertex b)) :: 32 word) @ concat (vertex b) @ word_bytes (of_nat (length (vert_groups b)) :: 32 word) @ concat (map write_vert_group (vert_groups b)) @ word_bytes (of_nat (length (indices b)) :: 32 word) @ concat (indices b) @ rest"
    using r5 by (simp add: f6_def)
  define f7 where "f7 = advance (length (concat (vert_colors b))) f6"
  have s6: "read_array sizeof_Color (unat (of_nat (length (vert_colors b)) :: 32 word)) f6 = (vert_colors b, f7)"
    unfolding f7_def using array_full2 [OF r6, of sizeof_Color] w(4) by simp
  have r7: "remaining f7 = word_bytes (of_nat (length (planes b)) :: 32 word) @ concat (planes b) @ word_bytes (of_nat (length (vertex b)) :: 32 word) @ concat (vertex b) @ word_bytes (of_nat (length (vert_groups b)) :: 32 word) @ concat (map write_vert_group (vert_groups b)) @ word_bytes (of_nat (length (indices b)) :: 32 word) @ concat (indices b) @ rest"
    using r6 by (simp add: f7_def)
  define f8 where "f8 = advance (length (word_bytes (of_nat (length (planes b)) :: 32 word))) f7"
  have s7: "readinto_word old f7 = ((of_nat (length (planes b)) :: 32 word), f8)" for old
    unfolding f8_def using readinto_word32_full [OF r7] by simp
  have r8: "remaining f8 = concat (planes b) @ word_bytes (of_nat (length (vertex b)) :: 32 word) @ concat (vertex b) @ word_bytes (of_nat (length (vert_groups b)) :: 32 word) @ concat (map write_vert_group (vert_groups b)) @ word_bytes (of_nat (length (indices b)) :: 32 word) @ concat (indices b) @ rest"
    using r7 by (simp add: f8_def)
  define f9 where "f9 = advance (length (concat (planes b))) f8"
  have s8: "read_array sizeof_Plane (unat (of_nat (length (planes b)) :: 32 word)) f8 = (planes b, f9)"
    unfolding f9_def using array_full2 [OF r8, of sizeof_Plane] w(5) by simp
  have r9: "remaining f9 = word_bytes (of_nat (length (vertex b)) :: 32 word) @ concat (vertex b) @ word_bytes (of_nat (length (vert_groups b)) :: 32 word) @ concat (map write_vert_group (vert_groups b)) @ word_bytes (of_nat (length (indices b)) :: 32 word) @ concat (indices b) @ rest"
    using r8 by (simp add: f9_def)
  define f10 where "f10 = advance (length (word_bytes (of_nat (length (vertex b)) :: 32 word))) f9"
  have s9: "readinto_word old f9 = ((of_nat (length (vertex b)) :: 32 word), f10)" for old
    unfolding f10_def using readinto_word32_full [OF r9] by simp
  have r10: "remaining f10 = concat (vertex b) @ word_bytes (of_nat (length (vert_groups b)) :: 32 word) @ concat (map write_vert_group (vert_groups b)) @ word_bytes (of_nat (length (indices b)) :: 32 word) @ concat (indices b) @ rest"
    using r9 by (simp add: f10_def)
  define f11 where "f11 = advance (length (concat (vertex b))) f10"
  have s10: "read_array sizeof_Vertex (unat (of_nat (length (vertex b)) :: 32 word)) f10 = (vertex b, f11)"
    unfolding f11_def using array_full2 [OF r10, of sizeof_Vertex] w(6) by simp
  have r11: "remaining f11 = word_bytes (of_nat (length (vert_groups b)) :: 32 word) @ concat (map write_vert_group (vert_groups b)) @ word_bytes (of_nat (length (indices b)) :: 32 word) @ concat (indices b) @ rest"
    using r10 by (simp add: f11_def)
  define f12 where "f12 = advance (length (word_bytes (of_nat (length (vert_groups b)) :: 32 word))) f11"
  have s11: "readinto_word old f11 = ((of_nat (length (vert_groups b)) :: 32 word), f12)" for old
    unfolding f12_def using readinto_word32_full [OF r11] by simp
  have r12: "remaining f12 = concat (map write_vert_group (vert_groups b)) @ word_bytes (of_nat (length (indices b)) :: 32 word) @ concat (indices b) @ rest"
    using r11 by (simp add: f12_def)
  define f13 where "f13 = advance (length (concat (map write_vert_group (vert_groups b)))) f12"
  have s12: "read_many VertGroup_read (unat (of_nat (length (vert_groups b)) :: 32 word)) f12 = Inr (map clear_vg (vert_groups b), f13)"
    unfolding f13_def using read_vert_groups_full [OF r12] w(7,8,9) u by simp
  have r13: "remaining f13 = word_bytes (of_nat (length (indices b)) :: 32 word) @ concat (indices b) @ rest"
    using r12 by (simp add: f13_def)
  define f14 where "f14 = advance (length (word_bytes (of_nat (length (indices b)) :: 32 word))) f13"
  have s13: "readinto_word old f13 = ((of_nat (length (indices b)) :: 32 word), f14)" for old
    unfolding f14_def using readinto_word32_full [OF r13] by simp
  have r14: "remaining f14 = concat (indices b) @ rest"
    using r13 by (simp add: f14_def)
  define f15 where "f15 = advance (length (concat (indices b))) f14"
  have s14: "read_array sizeof_c_uint16 (unat (of_nat (length (indices b)) :: 32 word)) f14 = (indices b, f15)"
    unfolding f15_def using array_full2 [OF r14, of sizeof_c_uint16] w(10) by simp
  have r15: "remaining f15 = rest"
    using r14 by (simp add: f15_def)
  have fin: "f15 = advance (length (write_mesh_body b)) f"
    by (simp add: f1_def f2_def f3_def f4_def f5_def f6_def f7_def f8_def f9_def f10_def f11_def f12_def f13_def f14_def f15_def write_mesh_body_def write_array_def add.assoc)
  have e: "\<lparr>name = name b, state_index = state_index b, is_single_geom = is_single_geom b,
             renderflags = renderflags b, matrix = matrix b, vert_colors = vert_colors b,
             planes = planes b, vertex = vertex b, vert_groups = map clear_vg (vert_groups b),
             indices = indices b\<rparr> = clear_body b"
    by (simp add: clear_body_def)
  show ?thesis
    unfolding Mesh_read_def using w(2) e
    by (simp add: s0 s1 s2 s3 s4 s5 s6 s7 s8 s9 s10 s11 s12 s13 s14 fin [symmetric])
qed


lemma length_flat [simp]: "length (flat a m) = msize m"
  by (induction a m rule: flat.induct) (auto split: option.splits)

lemma unindent_eq: "unindent n l = (if n < l then n else l)"
  by (induction n l rule: unindent.induct) (subst unindent.simps, simp)

lemma markers_differ:
  "MSH_END \<noteq> MSH_CHILD" "MSH_END \<noteq> MSH_SIBLING" "MSH_SIBLING \<noteq> MSH_CHILD"
  "MSH_EOF \<noteq> MSH_CHILD" "MSH_EOF \<noteq> MSH_SIBLING" "MSH_EOF \<noteq> MSH_END"
  by (simp_all add: MSH_END_def MSH_CHILD_def MSH_SIBLING_def MSH_EOF_def)

lemma mesh_loop_step:
  "0 < in_mesh s \<Longrightarrow> loop_step s = Inr s' \<Longrightarrow> mesh_loop s = mesh_loop s'"
  by (subst mesh_loop.simps) simp

lemma mesh_loop_done: "in_mesh s \<le> 0 \<Longrightarrow> mesh_loop s = Inr s"
  by (subst mesh_loop.simps) simp


lemma loop_step_END:
  assumes "remaining f = word_bytes MSH_END @ rest"
  shows "loop_step \<lparr>infile = f, heap = H, mesh_at = M, indentation_level = l,
                     in_mesh = n, block_type = bt\<rparr>
           = Inr \<lparr>infile = advance 4 f, heap = H, mesh_at = M,
                   indentation_level = (if n - 1 < l then n - 1 else l),
                   in_mesh = n - 1, block_type = MSH_END\<rparr>"
  using readinto_word32_full [OF assms, of bt]
  by (simp add: loop_step_def markers_differ unindent_eq)

lemma Mesh_read_fresh:
  assumes "remaining f = pre @ write_mesh_body b @ rest" and "length pre = k" and "wf_MeshBody b"
  shows "Mesh_read lvl (advance k f)
           = Inr (fresh (clear_body b) lvl, advance (k + length (write_mesh_body b)) f)"
proof -
  have "remaining (advance k f) = write_mesh_body b @ rest" using assms(1,2) by simp
  from Mesh_read_full [OF this assms(3), of lvl] show ?thesis by (simp add: fresh_def)
qed



lemma length_add_meshes [simp]: "length (add_meshes p xs h) = length h"
  by (simp add: add_meshes_def)

lemma add_meshes_nil [simp]: "add_meshes p [] h = h"
  by (simp add: add_meshes_def)






lemma step_END:
  assumes "remaining f = word_bytes MSH_END @ rest" and "0 < n"
  shows "mesh_loop (loop_state f h m d n bt)
           = mesh_loop (loop_state (advance 4 f) h m (if n - 1 < d then n - 1 else d) (n - 1) MSH_END)"
proof -
  have "loop_step (loop_state f h m d n bt)
          = Inr (loop_state (advance 4 f) h m (if n - 1 < d then n - 1 else d) (n - 1) MSH_END)"
    unfolding loop_state_def using assms(2)
    by (simp add: loop_step_END [OF assms(1)] of_nat_diff) linarith
  then show ?thesis using assms(2) by (intro mesh_loop_step) (simp_all add: loop_state_def)
qed




lemma msize_Mesh_child: "c = Some k \<Longrightarrow> msize k < msize (Mesh b c s ms l)"
  by simp



lemma wf_sample_body: "wf_MeshBody sample_body"
  by (simp add: wf_MeshBody_def sample_body_def wf_name_def ascii_def wf_array_def
        sizeof_Matrix_def)


lemma wf_sample_leaf: "wf_mesh 0 sample_leaf"
  by (simp add: sample_leaf_def wf_sample_body)

lemma remaining_start [simp]: "remaining \<lparr>data = bs, pos = 0\<rparr> = bs"
  by (simp add: remaining_def)

lemma advance_start [simp]: "advance n \<lparr>data = bs, pos = 0\<rparr> = \<lparr>data = bs, pos = n\<rparr>"
  by (simp add: advance_def)

section \<open>The mesh tree\<close>



lemma bad_eof:
  assumes "Mesh_read 0 f = Inr (root_mesh, f1)"
    and "mesh_loop \<lparr>infile = f1, heap = [root_mesh], mesh_at = [0], indentation_level = 0,
                     in_mesh = 1, block_type = 0\<rparr> = Inr s"
    and "length (remaining (infile s)) < 4 \<or> take 4 (remaining (infile s)) \<noteq> word_bytes MSH_EOF"
  shows "Block_read_meshes f = Inl InvalidFormat"
proof -
  have e: "block_type s = MSH_END"
    using mesh_loop_exit_marker [OF assms(2)] by simp
  have "fst (readinto_word (block_type s) (infile s)) \<noteq> MSH_EOF"
  proof (cases "length (remaining (infile s)) < 4")
    case True
    then show ?thesis using truncated_marker_not_EOF e by simp
  next
    case False
    then show ?thesis using assms(3) other_marker_not_EOF by simp
  qed
  then show ?thesis using assms(1,2)
    by (simp add: Block_read_meshes_def split_def)
qed

text \<open>
  C6. When the root mesh has been read and the loop over the markers has ended without an
  error, the next four bytes are read and compared with \<open>MSH_EOF\<close>. If fewer than four
  bytes are left, or the four bytes are not those of \<open>MSH_EOF\<close>, the mesh part of
  \<open>Block.read\<close> raises \<open>InvalidFormat\<close>, and so does \<open>Block.read\<close> for every block
  whose buffers were read up to this point: no block is returned.
\<close>

theorem bad_end_of_block_marker:
  assumes "Mesh_read 0 f = Inr (root_mesh, f1)"
    and "mesh_loop \<lparr>infile = f1, heap = [root_mesh], mesh_at = [0], indentation_level = 0,
                     in_mesh = 1, block_type = 0\<rparr> = Inr s"
    and "length (remaining (infile s)) < 4 \<or> take 4 (remaining (infile s)) \<noteq> word_bytes MSH_EOF"
  shows "Block_read_meshes f = Inl InvalidFormat
         \<and> (\<forall>f0 b. Block_read_buffers f0 = Inr (b, f) \<longrightarrow> Block_read f0 = Inl InvalidFormat)"
  using bad_eof [OF assms] by (simp add: Block_read_def)

lemma sample_leaf_loop:
  "mesh_loop \<lparr>infile = \<lparr>data = write_mesh sample_leaf @ [1, 2, 3],
                          pos = length (write_mesh_body sample_body)\<rparr>,
              heap = [fresh (clear_body sample_body) 0], mesh_at = [0], indentation_level = 0,
              in_mesh = 1, block_type = 0\<rparr>
   = Inr \<lparr>infile = \<lparr>data = write_mesh sample_leaf @ [1, 2, 3],
                     pos = length (write_mesh_body sample_body) + 4\<rparr>,
          heap = [fresh (clear_body sample_body) 0], mesh_at = [0], indentation_level = 0,
          in_mesh = 0, block_type = MSH_END\<rparr>"
proof -
  let ?f = "\<lparr>data = write_mesh sample_leaf @ [1, 2, 3], pos = 0\<rparr>"
  let ?n = "length (write_mesh_body sample_body)"
  have r: "remaining (advance ?n ?f) = word_bytes MSH_END @ [1, 2, 3]"
    by (simp add: sample_leaf_def remaining_def)
  from step_END [OF r, of 1 "[fresh (clear_body sample_body) 0]" "[0]" 0 0]
  have "mesh_loop (loop_state (advance ?n ?f) [fresh (clear_body sample_body) 0] [0] 0 1 0)
          = mesh_loop (loop_state (advance 4 (advance ?n ?f)) [fresh (clear_body sample_body) 0]
              [0] 0 0 MSH_END)" by simp
  also have "\<dots> = Inr (loop_state (advance 4 (advance ?n ?f)) [fresh (clear_body sample_body) 0]
              [0] 0 0 MSH_END)"
    by (rule mesh_loop_done) (simp add: loop_state_def)
  finally show ?thesis by (simp add: loop_state_def add.commute)
qed

theorem bad_end_of_block_marker_witness:
  "Block_read_meshes \<lparr>data = write_mesh sample_leaf @ [1, 2, 3], pos = 0\<rparr> = Inl InvalidFormat"
proof -
  let ?f = "\<lparr>data = write_mesh sample_leaf @ [1, 2, 3], pos = 0\<rparr>"
  have 1: "Mesh_read 0 ?f = Inr (fresh (clear_body sample_body) 0,
             \<lparr>data = write_mesh sample_leaf @ [1, 2, 3], pos = length (write_mesh_body sample_body)\<rparr>)"
    using Mesh_read_fresh [of ?f "[]" sample_body "word_bytes MSH_END @ [1, 2, 3]" 0 0]
      wf_sample_body
    by (simp add: sample_leaf_def)
  have 3: "length (remaining \<lparr>data = write_mesh sample_leaf @ [1, 2, 3],
                     pos = length (write_mesh_body sample_body) + 4\<rparr>) < 4"
    by (simp add: remaining_def sample_leaf_def)
  show ?thesis
    using bad_end_of_block_marker [OF 1 sample_leaf_loop] 3 by simp
qed







section \<open>Names of length zero\<close>









section \<open>The skin-weight table\<close>




text \<open>
  C10. For a container of the skin-weight table the writer writes the stored \<open>count\<close>
  (its low 32 bits) and then six bytes for every element of \<open>array\<close>; the length of
  \<open>array\<close> is not written. So where \<open>count\<close>, a 32-bit number, is not that length, the
  prefix written is not the number of records that follow it.
\<close>

theorem skin_weight_prefix_is_stored_count:
  "bytes_word (take 4 (write_vts_container c)) = (of_int (count c) :: 32 word)
   \<and> length (drop 4 (write_vts_container c)) = length (array c) * 6
   \<and> (0 \<le> count c \<and> count c < 2 ^ 32 \<and> length (array c) < 2 ^ 32
        \<and> count c \<noteq> int (length (array c)) \<longrightarrow>
      bytes_word (take 4 (write_vts_container c)) \<noteq> (of_nat (length (array c)) :: 32 word))"
proof -
  have 1: "bytes_word (take 4 (write_vts_container c)) = (of_int (count c) :: 32 word)"
    by (simp add: write_vts_container_def)
  have 2: "length (drop 4 (write_vts_container c)) = length (array c) * 6"
    by (simp add: write_vts_container_def length_concat sum_list_triv comp_def)
  have 3: "(of_int (count c) :: 32 word) \<noteq> of_nat (length (array c))"
    if "0 \<le> count c" "count c < 2 ^ 32" "length (array c) < 2 ^ 32"
       "count c \<noteq> int (length (array c))"
  proof
    assume e: "(of_int (count c) :: 32 word) = of_nat (length (array c))"
    define k where "k = nat (count c)"
    have k: "count c = int k" "k < 2 ^ 32" using that by (simp_all add: k_def nat_less_iff)
    have "(of_nat k :: 32 word) = of_nat (length (array c))" using e k(1) by simp
    then have "unat (of_nat k :: 32 word) = unat (of_nat (length (array c)) :: 32 word)" by simp
    then have "k = length (array c)" using k(2) that(3) by (simp add: unat_of_nat32)
    then show False using that(4) k(1) by simp
  qed
  show ?thesis using 1 2 3 by auto
qed

theorem skin_weight_prefix_is_stored_count_witness:
  "bytes_word (take 4 (write_vts_container \<lparr>count = 5, array = []\<rparr>)) = (5 :: 32 word)
   \<and> length (drop 4 (write_vts_container \<lparr>count = 5, array = []\<rparr>)) = 0
   \<and> bytes_word (take 4 (write_vts_container \<lparr>count = 5, array = []\<rparr>)) \<noteq> (0 :: 32 word)"
  using skin_weight_prefix_is_stored_count [of "\<lparr>count = 5, array = []\<rparr>"]
  by (simp add: write_vts_container_def)

section \<open>The block count of the header\<close>

text \<open>
  C8. Whatever block count the header of the graph holds, \<open>MSH.write\<close> stores the number
  of blocks in it and then writes the header and the blocks: the count field of the written
  header (the four bytes at offset 8) is the length of the list of blocks that follow it, as
  a 32-bit number, and for fewer than \<open>2 ^ 32\<close> blocks exactly that length.
\<close>

theorem header_block_count_recomputed:
  "blockCount (block_header (snd (MSH_write m))) = of_nat (length (blocks m))
   \<and> blocks (snd (MSH_write m)) = blocks m
   \<and> fst (MSH_write m)
       = write_BlockHeader (block_header (snd (MSH_write m))) @ concat (map write_block (blocks m))
   \<and> (length (fileType (block_header m)) = 4 \<longrightarrow>
        bytes_word (take 4 (drop 8 (fst (MSH_write m)))) = (of_nat (length (blocks m)) :: 32 word))
   \<and> (length (blocks m) < 2 ^ 32 \<longrightarrow>
        unat (blockCount (block_header (snd (MSH_write m)))) = length (blocks m))"
  by (simp add: MSH_write_def write_BlockHeader_def unat_of_nat32)

theorem header_block_count_recomputed_witness:
  "bytes_word (take 4 (drop 8 (fst (MSH_write stale_msh)))) = (0 :: 32 word)
   \<and> unat (blockCount (block_header (snd (MSH_write stale_msh)))) = length (blocks stale_msh)"
proof -
  have a: "length (fileType (block_header stale_msh)) = 4" "blocks stale_msh = []"
    by (simp_all add: stale_msh_def)
  note t = header_block_count_recomputed [of stale_msh]
  have 1: "bytes_word (take 4 (drop 8 (fst (MSH_write stale_msh))))
             = (of_nat (length (blocks stale_msh)) :: 32 word)"
    using t a(1) by blast
  have 2: "unat (blockCount (block_header (snd (MSH_write stale_msh)))) = length (blocks stale_msh)"
    using t a(2) by force
  show ?thesis using 1 2 a(2) by simp
qed

end
